theory Spec2Isabelle
  imports Main "HOL-Library.Word" "HOL-Library.AList"
begin

section \<open>Strings and JSON values of the runtime\<close>

text \<open>
  A JavaScript string is a sequence of 16-bit code units. The string literals of
  \<^verbatim>\<open>src/index.ts\<close> that are ASCII are written with \<open>ascii\<close>; the Chinese
  literals are written as their code units.
\<close>

type_synonym jsstring = "16 word list"

definition ascii :: "string \<Rightarrow> jsstring" where
  "ascii s = map of_char s"

text \<open>
  The payload of an upstream response is a tree of null, booleans, numbers, strings,
  arrays and objects. An object is the list of its properties in enumeration order.
  Numbers are IEEE doubles in the runtime; the model keeps their type \<open>'n\<close> and the
  primitives of the runtime on them as parameters:
  \<^item> \<open>num_is_finite\<close>: neither an infinity nor NaN;
  \<^item> \<open>num_to_string\<close>: Number::toString on a finite number;
  \<^item> \<open>num_of_token\<close>: the number that JSON.parse reads from a token made of the
    characters of number literals (None when the token is no JSON number);
  \<^item> \<open>num_is_falsy\<close>: the number is \<open>0\<close>, \<open>-0\<close> or NaN;
  \<^item> \<open>num_minus_zero\<close>: the number \<open>-0\<close>.
\<close>

datatype 'n json =
    JNull
  | JBool bool
  | JNum 'n
  | JStr jsstring
  | JArr "'n json list"
  | JObj "(jsstring \<times> 'n json) list"

record 'n number_ops =
  num_is_finite :: "'n \<Rightarrow> bool"
  num_to_string :: "'n \<Rightarrow> jsstring"
  num_of_token :: "jsstring \<Rightarrow> 'n option"
  num_is_falsy :: "'n \<Rightarrow> bool"
  num_minus_zero :: "'n"

text \<open>JavaScript's \<open>!v\<close> on a payload value: objects and arrays are never falsy.\<close>

fun falsy :: "'n number_ops \<Rightarrow> 'n json \<Rightarrow> bool" where
  "falsy ops JNull = True"
| "falsy ops (JBool b) = (\<not> b)"
| "falsy ops (JNum n) = num_is_falsy ops n"
| "falsy ops (JStr s) = (s = [])"
| "falsy ops (JArr xs) = False"
| "falsy ops (JObj kvs) = False"

subsection \<open>JSON.stringify(value, null, 2)\<close>

text \<open>
  QuoteJSONString of ECMAScript: the seven short escapes, \<open>\uXXXX\<close> (lowercase
  hexadecimal) for the other code units below 0x20 and for a surrogate that is not part
  of a pair, every other code unit as it is.
\<close>

definition hex_digit :: "nat \<Rightarrow> 16 word" where
  "hex_digit d = (if d < 10 then of_nat (48 + d) else of_nat (87 + d))"

definition UnicodeEscape :: "16 word \<Rightarrow> jsstring" where
  "UnicodeEscape c =
     [0x5C, 0x75,
      hex_digit (unat c div 4096 mod 16), hex_digit (unat c div 256 mod 16),
      hex_digit (unat c div 16 mod 16), hex_digit (unat c mod 16)]"

definition is_leading_surrogate :: "16 word \<Rightarrow> bool" where
  "is_leading_surrogate c = (0xD800 \<le> c \<and> c \<le> 0xDBFF)"

definition is_trailing_surrogate :: "16 word \<Rightarrow> bool" where
  "is_trailing_surrogate c = (0xDC00 \<le> c \<and> c \<le> 0xDFFF)"

fun quote_units :: "jsstring \<Rightarrow> jsstring" where
  "quote_units [] = []"
| "quote_units (c # cs) =
     (if c = 0x08 then [0x5C, 0x62] @ quote_units cs
      else if c = 0x09 then [0x5C, 0x74] @ quote_units cs
      else if c = 0x0A then [0x5C, 0x6E] @ quote_units cs
      else if c = 0x0C then [0x5C, 0x66] @ quote_units cs
      else if c = 0x0D then [0x5C, 0x72] @ quote_units cs
      else if c = 0x22 then [0x5C, 0x22] @ quote_units cs
      else if c = 0x5C then [0x5C, 0x5C] @ quote_units cs
      else if c < 0x20 then UnicodeEscape c @ quote_units cs
      else if is_leading_surrogate c then
        (case cs of
           [] \<Rightarrow> UnicodeEscape c
         | d # ds \<Rightarrow>
             if is_trailing_surrogate d then c # d # quote_units ds
             else UnicodeEscape c @ quote_units cs)
      else if is_trailing_surrogate c then UnicodeEscape c @ quote_units cs
      else c # quote_units cs)"

definition QuoteJSONString :: "jsstring \<Rightarrow> jsstring" where
  "QuoteJSONString s = [0x22] @ quote_units s @ [0x22]"

text \<open>The gap of \<open>JSON.stringify(v, null, 2)\<close> is two spaces.\<close>

definition gap :: jsstring where
  "gap = [0x20, 0x20]"

fun join :: "jsstring \<Rightarrow> jsstring list \<Rightarrow> jsstring" where
  "join sep [] = []"
| "join sep [x] = x"
| "join sep (x # y # ys) = x @ sep @ join sep (y # ys)"

text \<open>
  SerializeJSONProperty with SerializeJSONArray and SerializeJSONObject, for a non-empty
  gap: \<open>indent\<close> is the indentation of the enclosing level.
\<close>

fun SerializeJSONProperty :: "'n number_ops \<Rightarrow> jsstring \<Rightarrow> 'n json \<Rightarrow> jsstring" where
  "SerializeJSONProperty ops indent JNull = ascii ''null''"
| "SerializeJSONProperty ops indent (JBool b) = (if b then ascii ''true'' else ascii ''false'')"
| "SerializeJSONProperty ops indent (JNum n) =
     (if num_is_finite ops n then num_to_string ops n else ascii ''null'')"
| "SerializeJSONProperty ops indent (JStr s) = QuoteJSONString s"
| "SerializeJSONProperty ops indent (JArr xs) =
     (if xs = [] then ascii ''[]''
      else [0x5B, 0x0A] @ (indent @ gap)
           @ join ([0x2C, 0x0A] @ (indent @ gap))
               (map (SerializeJSONProperty ops (indent @ gap)) xs)
           @ [0x0A] @ indent @ [0x5D])"
| "SerializeJSONProperty ops indent (JObj kvs) =
     (if kvs = [] then ascii ''{}''
      else [0x7B, 0x0A] @ (indent @ gap)
           @ join ([0x2C, 0x0A] @ (indent @ gap))
               (map (\<lambda>kv. QuoteJSONString (fst kv) @ [0x3A, 0x20]
                             @ SerializeJSONProperty ops (indent @ gap) (snd kv)) kvs)
           @ [0x0A] @ indent @ [0x7D])"

definition JSON_stringify :: "'n number_ops \<Rightarrow> 'n json \<Rightarrow> jsstring" where
  "JSON_stringify ops v = SerializeJSONProperty ops [] v"

subsection \<open>JSON.parse\<close>

text \<open>
  The grammar of JSON texts, read by recursive descent. A string is read after its opening
  quote; \<open>parse_string\<close> returns it with the text after the closing quote.
\<close>

definition is_ws :: "16 word \<Rightarrow> bool" where
  "is_ws c = (c = 0x20 \<or> c = 0x09 \<or> c = 0x0A \<or> c = 0x0D)"

definition skip_ws :: "jsstring \<Rightarrow> jsstring" where
  "skip_ws s = dropWhile is_ws s"

definition hex_value :: "16 word \<Rightarrow> nat option" where
  "hex_value c =
     (if 0x30 \<le> c \<and> c \<le> 0x39 then Some (unat c - 48)
      else if 0x61 \<le> c \<and> c \<le> 0x66 then Some (unat c - 87)
      else if 0x41 \<le> c \<and> c \<le> 0x46 then Some (unat c - 55)
      else None)"

definition unescape :: "16 word \<Rightarrow> 16 word option" where
  "unescape e =
     (if e = 0x22 then Some 0x22
      else if e = 0x5C then Some 0x5C
      else if e = 0x2F then Some 0x2F
      else if e = 0x62 then Some 0x08
      else if e = 0x66 then Some 0x0C
      else if e = 0x6E then Some 0x0A
      else if e = 0x72 then Some 0x0D
      else if e = 0x74 then Some 0x09
      else None)"

fun parse_string :: "jsstring \<Rightarrow> (jsstring \<times> jsstring) option" where
  "parse_string [] = None"
| "parse_string (c # cs) =
     (if c = 0x22 then Some ([], cs)
      else if c = 0x5C then
        (case cs of
           [] \<Rightarrow> None
         | e # r \<Rightarrow>
             if e = 0x75 then
               (case r of
                  h3 # h2 # h1 # h0 # r' \<Rightarrow>
                    (case (hex_value h3, hex_value h2, hex_value h1, hex_value h0) of
                       (Some x3, Some x2, Some x1, Some x0) \<Rightarrow>
                         (case parse_string r' of
                            None \<Rightarrow> None
                          | Some (str, t) \<Rightarrow>
                              Some (of_nat (4096 * x3 + 256 * x2 + 16 * x1 + x0) # str, t))
                     | _ \<Rightarrow> None)
                | _ \<Rightarrow> None)
             else
               (case unescape e of
                  None \<Rightarrow> None
                | Some u \<Rightarrow>
                    (case parse_string r of
                       None \<Rightarrow> None
                     | Some (str, t) \<Rightarrow> Some (u # str, t))))
      else if c < 0x20 then None
      else
        (case parse_string cs of
           None \<Rightarrow> None
         | Some (str, t) \<Rightarrow> Some (c # str, t)))"

text \<open>
  A number token is the longest run of the characters that number literals are made of;
  \<open>num_of_token\<close> decides whether it is a JSON number. After a JSON value only white
  space, a comma, a closing bracket or the end of the text may follow, so a text is
  accepted this way exactly when the grammar accepts it.
\<close>

definition is_number_unit :: "16 word \<Rightarrow> bool" where
  "is_number_unit c =
     ((0x30 \<le> c \<and> c \<le> 0x39) \<or> c = 0x2D \<or> c = 0x2B \<or> c = 0x2E \<or> c = 0x65 \<or> c = 0x45)"

text \<open>
  The fuel bounds the number of nested calls. \<open>JSON_parse\<close> gives one more than the
  length of the text; \<open>fuel_for_length\<close> below shows that this is enough for every text
  that JSON.stringify writes.
\<close>

fun parse_value :: "'n number_ops \<Rightarrow> nat \<Rightarrow> jsstring \<Rightarrow> ('n json \<times> jsstring) option"
  and parse_elements ::
    "'n number_ops \<Rightarrow> nat \<Rightarrow> jsstring \<Rightarrow> 'n json list \<Rightarrow> ('n json \<times> jsstring) option"
  and parse_members ::
    "'n number_ops \<Rightarrow> nat \<Rightarrow> jsstring \<Rightarrow> (jsstring \<times> 'n json) list \<Rightarrow> ('n json \<times> jsstring) option"
where
  "parse_value ops 0 s = None"
| "parse_value ops (Suc fuel) s =
     (case skip_ws s of
        [] \<Rightarrow> None
      | c # cs \<Rightarrow>
          if c = 0x7B then
            (case skip_ws cs of
               [] \<Rightarrow> None
             | d # ds \<Rightarrow> if d = 0x7D then Some (JObj [], ds) else parse_members ops fuel cs [])
          else if c = 0x5B then
            (case skip_ws cs of
               [] \<Rightarrow> None
             | d # ds \<Rightarrow> if d = 0x5D then Some (JArr [], ds) else parse_elements ops fuel cs [])
          else if c = 0x22 then
            (case parse_string cs of
               None \<Rightarrow> None
             | Some (str, r) \<Rightarrow> Some (JStr str, r))
          else if c = 0x6E then
            (if take 3 cs = ascii ''ull'' then Some (JNull, drop 3 cs) else None)
          else if c = 0x74 then
            (if take 3 cs = ascii ''rue'' then Some (JBool True, drop 3 cs) else None)
          else if c = 0x66 then
            (if take 4 cs = ascii ''alse'' then Some (JBool False, drop 4 cs) else None)
          else if is_number_unit c then
            (case num_of_token ops (takeWhile is_number_unit (c # cs)) of
               None \<Rightarrow> None
             | Some n \<Rightarrow> Some (JNum n, dropWhile is_number_unit (c # cs)))
          else None)"
| "parse_elements ops 0 s acc = None"
| "parse_elements ops (Suc fuel) s acc =
     (case parse_value ops fuel s of
        None \<Rightarrow> None
      | Some (v, r) \<Rightarrow>
          (case skip_ws r of
             [] \<Rightarrow> None
           | c # cs \<Rightarrow>
               if c = 0x2C then parse_elements ops fuel cs (acc @ [v])
               else if c = 0x5D then Some (JArr (acc @ [v]), cs)
               else None))"
| "parse_members ops 0 s acc = None"
| "parse_members ops (Suc fuel) s acc =
     (case skip_ws s of
        [] \<Rightarrow> None
      | q # cs \<Rightarrow>
          if q \<noteq> 0x22 then None
          else
            (case parse_string cs of
               None \<Rightarrow> None
             | Some (k, r) \<Rightarrow>
                 (case skip_ws r of
                    [] \<Rightarrow> None
                  | c # r' \<Rightarrow>
                      if c \<noteq> 0x3A then None
                      else
                        (case parse_value ops fuel r' of
                           None \<Rightarrow> None
                         | Some (v, r'') \<Rightarrow>
                             (case skip_ws r'' of
                                [] \<Rightarrow> None
                              | d # t \<Rightarrow>
                                  if d = 0x2C then parse_members ops fuel t (AList.update k v acc)
                                  else if d = 0x7D then Some (JObj (AList.update k v acc), t)
                                  else None)))))"

definition JSON_parse :: "'n number_ops \<Rightarrow> jsstring \<Rightarrow> 'n json option" where
  "JSON_parse ops s =
     (case parse_value ops (Suc (length s)) s of
        None \<Rightarrow> None
      | Some (v, r) \<Rightarrow> if skip_ws r = [] then Some v else None)"

text \<open>
  Conditions on a payload. An object of the runtime has each key once
  (\<open>distinct_keys\<close>). A number reads back when it is finite and its printed form is a
  number token that JSON.parse reads as that number (\<open>number_reads_back\<close>). ECMAScript
  specifies Number::toString and the reading of a number token so that every finite number
  other than negative zero reads back; \<open>numbers_finite_not_minus_zero\<close> says that the
  numbers of a payload are such numbers.
\<close>

fun distinct_keys :: "'n json \<Rightarrow> bool" where
  "distinct_keys (JArr xs) = list_all distinct_keys xs"
| "distinct_keys (JObj kvs) =
     (distinct (map fst kvs) \<and> list_all (\<lambda>kv. distinct_keys (snd kv)) kvs)"
| "distinct_keys v = True"

definition number_reads_back :: "'n number_ops \<Rightarrow> 'n \<Rightarrow> bool" where
  "number_reads_back ops n =
     (num_is_finite ops n \<and> num_to_string ops n \<noteq> [] \<and>
      list_all is_number_unit (num_to_string ops n) \<and>
      num_of_token ops (num_to_string ops n) = Some n)"

fun numbers_read_back :: "'n number_ops \<Rightarrow> 'n json \<Rightarrow> bool" where
  "numbers_read_back ops (JNum n) = number_reads_back ops n"
| "numbers_read_back ops (JArr xs) = list_all (numbers_read_back ops) xs"
| "numbers_read_back ops (JObj kvs) = list_all (\<lambda>kv. numbers_read_back ops (snd kv)) kvs"
| "numbers_read_back ops v = True"

fun numbers_finite_not_minus_zero :: "'n number_ops \<Rightarrow> 'n json \<Rightarrow> bool" where
  "numbers_finite_not_minus_zero ops (JNum n) = (num_is_finite ops n \<and> n \<noteq> num_minus_zero ops)"
| "numbers_finite_not_minus_zero ops (JArr xs) = list_all (numbers_finite_not_minus_zero ops) xs"
| "numbers_finite_not_minus_zero ops (JObj kvs) =
     list_all (\<lambda>kv. numbers_finite_not_minus_zero ops (snd kv)) kvs"
| "numbers_finite_not_minus_zero ops v = True"

text \<open>The fuel that reading a value back takes: one unit for each value and each element.\<close>

fun fuel_for :: "'n json \<Rightarrow> nat" where
  "fuel_for (JArr xs) = Suc (sum_list (map (\<lambda>x. Suc (fuel_for x)) xs))"
| "fuel_for (JObj kvs) = Suc (sum_list (map (\<lambda>kv. Suc (fuel_for (snd kv))) kvs))"
| "fuel_for v = Suc 0"

subsection \<open>An instance of the numbers\<close>

text \<open>
  A part of the doubles: the integers of magnitude below \<open>2^53\<close>, negative zero and the
  three values that are not finite. \<open>Integral m\<close> is the integer \<open>unat m\<close> and
  \<open>Negative m\<close> is the integer \<open>- unat m\<close>, \<open>Negative 0\<close> being negative zero. Every
  number of the instance is a double, and Number::toString prints an integer below
  \<open>10^21\<close> in plain decimal, negative zero as \<open>0\<close>. The instance reads the integer
  literals of JSON whose magnitude is below \<open>2^53\<close>, which the runtime reads exactly. A
  token that is a larger integer or has a fraction or an exponent stands for a double that
  is outside the instance in general, and the instance does not read it (None), where the
  runtime does.
\<close>

datatype jsnumber = Integral "53 word" | Negative "53 word" | Infinity | Minus_infinity | NaN

function decimal :: "nat \<Rightarrow> jsstring" where
  "decimal n = (if n < 10 then [of_nat (48 + n)] else decimal (n div 10) @ [of_nat (48 + n mod 10)])"
  by pat_completeness auto
termination
  by (relation "measure id") auto

declare decimal.simps [simp del]

fun digits_value :: "nat \<Rightarrow> jsstring \<Rightarrow> nat option" where
  "digits_value acc [] = Some acc"
| "digits_value acc (c # cs) =
     (if 0x30 \<le> c \<and> c \<le> 0x39 then digits_value (10 * acc + (unat c - 48)) cs else None)"

definition natural_of_token :: "jsstring \<Rightarrow> nat option" where
  "natural_of_token tok =
     (case tok of
        [] \<Rightarrow> None
      | c # cs \<Rightarrow> if c = 0x30 \<and> cs \<noteq> [] then None else digits_value 0 tok)"

fun jsnumber_to_string :: "jsnumber \<Rightarrow> jsstring" where
  "jsnumber_to_string (Integral m) = decimal (unat m)"
| "jsnumber_to_string (Negative m) = (if m = 0 then ascii ''0'' else [0x2D] @ decimal (unat m))"
| "jsnumber_to_string Infinity = ascii ''Infinity''"
| "jsnumber_to_string Minus_infinity = ascii ''-Infinity''"
| "jsnumber_to_string NaN = ascii ''NaN''"

definition jsnumber_of_token :: "jsstring \<Rightarrow> jsnumber option" where
  "jsnumber_of_token tok =
     (case tok of
        [] \<Rightarrow> None
      | c # cs \<Rightarrow>
          if c = 0x2D then
            (case natural_of_token cs of
               None \<Rightarrow> None
             | Some n \<Rightarrow> if n < 2 ^ 53 then Some (Negative (of_nat n)) else None)
          else
            (case natural_of_token tok of
               None \<Rightarrow> None
             | Some n \<Rightarrow> if n < 2 ^ 53 then Some (Integral (of_nat n)) else None))"

fun jsnumber_is_finite :: "jsnumber \<Rightarrow> bool" where
  "jsnumber_is_finite (Integral m) = True"
| "jsnumber_is_finite (Negative m) = True"
| "jsnumber_is_finite Infinity = False"
| "jsnumber_is_finite Minus_infinity = False"
| "jsnumber_is_finite NaN = False"

fun jsnumber_is_falsy :: "jsnumber \<Rightarrow> bool" where
  "jsnumber_is_falsy (Integral m) = (m = 0)"
| "jsnumber_is_falsy (Negative m) = (m = 0)"
| "jsnumber_is_falsy Infinity = False"
| "jsnumber_is_falsy Minus_infinity = False"
| "jsnumber_is_falsy NaN = True"

definition jsnumber_ops :: "jsnumber number_ops" where
  "jsnumber_ops =
     \<lparr>num_is_finite = jsnumber_is_finite, num_to_string = jsnumber_to_string,
      num_of_token = jsnumber_of_token, num_is_falsy = jsnumber_is_falsy,
      num_minus_zero = Negative 0\<rparr>"

section \<open>The server\<close>

subsection \<open>State, errors and the upstream\<close>

text \<open>
  An exception is a value: a computation either returns or throws. What \<open>axios.get\<close>
  rejects with (no connection, a status outside 2xx, a timeout) is an \<open>AxiosError\<close>;
  \<open>Error msg\<close> is \<open>new Error(msg)\<close>.
\<close>

datatype axios_fault = NetworkError | BadStatus nat | Timeout

datatype js_error = Error jsstring | AxiosError axios_fault

datatype 'a completion = Return 'a | Throw js_error

datatype http_method = GET | POST

record http_request =
  request_method :: http_method
  url :: jsstring
  query :: "(jsstring \<times> jsstring) list"

text \<open>
  The upstream answers a request: \<open>axios.get\<close> rejects, or resolves with a response
  whose \<open>data\<close> is a payload value or is absent (\<open>undefined\<close>).
\<close>

datatype 'n http_outcome = Rejects js_error | Resolves "'n json option"

type_synonym 'n upstream = "http_request \<Rightarrow> 'n http_outcome"

datatype log_entry =
    ConsoleLog jsstring
  | ConsoleError jsstring js_error
  | Uncaught js_error

datatype tool =
    Get_stock_price
  | Get_company_overview
  | Get_daily_time_series
  | Get_weekly_time_series
  | Get_forex_rate
  | Get_crypto_price
  | Get_technical_indicator

datatype status = Running | Exited nat

text \<open>
  The state of the process: the module constant \<open>API_KEY\<close>, the tools registered with
  \<open>server.tool\<close>, whether the transport is connected, and the trace of what the process
  did to the outside: the requests it handed to \<open>axios.get\<close>, in order, and the lines it
  wrote to the console.
\<close>

record process =
  status :: status
  API_KEY :: "jsstring option"
  tools :: "tool list"
  transport :: bool
  requests :: "http_request list"
  console :: "log_entry list"

definition ALPHA_VANTAGE_BASE :: jsstring where
  "ALPHA_VANTAGE_BASE = ascii ''https://www.alphavantage.co/query''"

subsection \<open>makeAlphaVantageRequest\<close>

text \<open>
  \<open>AlphaVantageParams\<close>: an object whose properties are strings or \<open>undefined\<close>.
  \<open>{...params, apikey: API_KEY}\<close> copies the properties and sets \<open>apikey\<close>, in place
  when \<open>params\<close> has one already; axios leaves the undefined properties out of the query.
\<close>

type_synonym AlphaVantageParams = "(jsstring \<times> jsstring option) list"

fun axios_query :: "AlphaVantageParams \<Rightarrow> (jsstring \<times> jsstring) list" where
  "axios_query [] = []"
| "axios_query ((k, None) # ps) = axios_query ps"
| "axios_query ((k, Some v) # ps) = (k, v) # axios_query ps"

text \<open>The two string literals of the function (lines 295 and 300).\<close>

definition invalid_response_message :: jsstring where
  "invalid_response_message = [0x65E0, 0x6548, 0x7684, 0x54CD, 0x5E94, 0x6570, 0x636E]"

definition request_failed_label :: jsstring where
  "request_failed_label =
     ascii ''['' @ [0x9519, 0x8BEF] @ ascii ''] '' @ [0x8BF7, 0x6C42] @ ascii '' Alpha Vantage API '' @ [0x5931, 0x8D25] @ ascii '':''"

text \<open>
  The body of the \<open>try\<close>. \<open>axios.get\<close> issues a GET to the base URL with the
  parameters and the credential as its query; then \<open>await\<close> throws what axios rejects
  with, a falsy \<open>response.data\<close> throws \<open>Error\<close>, and any other \<open>response.data\<close>
  is returned.
\<close>

definition response_data_or_throw :: "'n number_ops \<Rightarrow> 'n http_outcome \<Rightarrow> 'n json completion" where
  "response_data_or_throw ops outcome =
     (case outcome of
        Rejects error \<Rightarrow> Throw error
      | Resolves None \<Rightarrow> Throw (Error invalid_response_message)
      | Resolves (Some data) \<Rightarrow>
          if falsy ops data then Throw (Error invalid_response_message) else Return data)"

definition upstream_request :: "process \<Rightarrow> AlphaVantageParams \<Rightarrow> http_request" where
  "upstream_request p params =
     \<lparr>request_method = GET, url = ALPHA_VANTAGE_BASE,
      query = axios_query (AList.update (ascii ''apikey'') (API_KEY p) params)\<rparr>"

definition request_or_throw ::
  "'n number_ops \<Rightarrow> 'n upstream \<Rightarrow> AlphaVantageParams \<Rightarrow> process \<Rightarrow> 'n json completion \<times> process" where
  "request_or_throw ops upstream params p =
     (let request = upstream_request p params
      in (response_data_or_throw ops (upstream request),
          p\<lparr>requests := requests p @ [request]\<rparr>))"

text \<open>The \<open>catch\<close>: the error is logged and \<open>null\<close> returned.\<close>

definition makeAlphaVantageRequest ::
  "'n number_ops \<Rightarrow> 'n upstream \<Rightarrow> AlphaVantageParams \<Rightarrow> process \<Rightarrow> 'n json completion \<times> process" where
  "makeAlphaVantageRequest ops upstream params p =
     (case request_or_throw ops upstream params p of
        (Return data, p') \<Rightarrow> (Return data, p')
      | (Throw error, p') \<Rightarrow>
          (Return JNull, p'\<lparr>console := console p' @ [ConsoleError request_failed_label error]\<rparr>))"

text \<open>An upstream that answers every request the same way.\<close>

definition mock_upstream :: "'n http_outcome \<Rightarrow> 'n upstream" where
  "mock_upstream outcome request = outcome"

subsection \<open>The seven tools\<close>

datatype content_block = TextBlock jsstring

record tool_result =
  content :: "content_block list"

text \<open>
  The text that each handler returns when the gateway gave it nothing (lines 49, 84, 121,
  156, 193, 230 and 268), as code units.
\<close>

fun failure_text :: "tool \<Rightarrow> jsstring" where
  "failure_text Get_stock_price =
     [0x83B7, 0x53D6, 0x80A1, 0x7968, 0x6570, 0x636E, 0x5931, 0x8D25]"
| "failure_text Get_company_overview =
     [0x83B7, 0x53D6, 0x516C, 0x53F8, 0x6570, 0x636E, 0x5931, 0x8D25]"
| "failure_text Get_daily_time_series =
     [0x83B7, 0x53D6, 0x65F6, 0x95F4, 0x5E8F, 0x5217, 0x6570, 0x636E, 0x5931, 0x8D25]"
| "failure_text Get_weekly_time_series =
     [0x83B7, 0x53D6, 0x6BCF, 0x5468, 0x65F6, 0x95F4, 0x5E8F, 0x5217, 0x6570, 0x636E, 0x5931, 0x8D25]"
| "failure_text Get_forex_rate =
     [0x83B7, 0x53D6, 0x5916, 0x6C47, 0x6C47, 0x7387, 0x6570, 0x636E, 0x5931, 0x8D25]"
| "failure_text Get_crypto_price =
     [0x83B7, 0x53D6, 0x52A0, 0x5BC6, 0x8D27, 0x5E01, 0x4EF7, 0x683C, 0x6570, 0x636E, 0x5931, 0x8D25]"
| "failure_text Get_technical_indicator =
     [0x83B7, 0x53D6, 0x6280, 0x672F, 0x6307, 0x6807, 0x6570, 0x636E, 0x5931, 0x8D25]"

definition get_stock_price ::
  "'n number_ops \<Rightarrow> 'n upstream \<Rightarrow> jsstring \<Rightarrow> process \<Rightarrow> tool_result completion \<times> process" where
  "get_stock_price ops upstream symbol p =
     (case makeAlphaVantageRequest ops upstream
           [(ascii ''function'', Some (ascii ''GLOBAL_QUOTE'')),
            (ascii ''symbol'', Some symbol)] p of
        (Throw error, p') \<Rightarrow> (Throw error, p')
      | (Return stockData, p') \<Rightarrow>
          if falsy ops stockData
          then (Return \<lparr>content = [TextBlock (failure_text Get_stock_price)]\<rparr>, p')
          else (Return \<lparr>content = [TextBlock (JSON_stringify ops stockData)]\<rparr>, p'))"

definition get_company_overview ::
  "'n number_ops \<Rightarrow> 'n upstream \<Rightarrow> jsstring \<Rightarrow> process \<Rightarrow> tool_result completion \<times> process" where
  "get_company_overview ops upstream symbol p =
     (case makeAlphaVantageRequest ops upstream
           [(ascii ''function'', Some (ascii ''OVERVIEW'')),
            (ascii ''symbol'', Some symbol)] p of
        (Throw error, p') \<Rightarrow> (Throw error, p')
      | (Return companyData, p') \<Rightarrow>
          if falsy ops companyData
          then (Return \<lparr>content = [TextBlock (failure_text Get_company_overview)]\<rparr>, p')
          else (Return \<lparr>content = [TextBlock (JSON_stringify ops companyData)]\<rparr>, p'))"

definition get_daily_time_series ::
  "'n number_ops \<Rightarrow> 'n upstream \<Rightarrow> jsstring \<Rightarrow> jsstring \<Rightarrow> process \<Rightarrow> tool_result completion \<times> process" where
  "get_daily_time_series ops upstream symbol outputsize p =
     (case makeAlphaVantageRequest ops upstream
           [(ascii ''function'', Some (ascii ''TIME_SERIES_DAILY'')),
            (ascii ''symbol'', Some symbol),
            (ascii ''outputsize'', Some outputsize)] p of
        (Throw error, p') \<Rightarrow> (Throw error, p')
      | (Return timeSeriesData, p') \<Rightarrow>
          if falsy ops timeSeriesData
          then (Return \<lparr>content = [TextBlock (failure_text Get_daily_time_series)]\<rparr>, p')
          else (Return \<lparr>content = [TextBlock (JSON_stringify ops timeSeriesData)]\<rparr>, p'))"

definition get_weekly_time_series ::
  "'n number_ops \<Rightarrow> 'n upstream \<Rightarrow> jsstring \<Rightarrow> process \<Rightarrow> tool_result completion \<times> process" where
  "get_weekly_time_series ops upstream symbol p =
     (case makeAlphaVantageRequest ops upstream
           [(ascii ''function'', Some (ascii ''TIME_SERIES_WEEKLY'')),
            (ascii ''symbol'', Some symbol)] p of
        (Throw error, p') \<Rightarrow> (Throw error, p')
      | (Return weeklyData, p') \<Rightarrow>
          if falsy ops weeklyData
          then (Return \<lparr>content = [TextBlock (failure_text Get_weekly_time_series)]\<rparr>, p')
          else (Return \<lparr>content = [TextBlock (JSON_stringify ops weeklyData)]\<rparr>, p'))"

definition get_forex_rate ::
  "'n number_ops \<Rightarrow> 'n upstream \<Rightarrow> jsstring \<Rightarrow> jsstring \<Rightarrow> process \<Rightarrow> tool_result completion \<times> process" where
  "get_forex_rate ops upstream from_currency to_currency p =
     (case makeAlphaVantageRequest ops upstream
           [(ascii ''function'', Some (ascii ''CURRENCY_EXCHANGE_RATE'')),
            (ascii ''from_currency'', Some from_currency),
            (ascii ''to_currency'', Some to_currency)] p of
        (Throw error, p') \<Rightarrow> (Throw error, p')
      | (Return forexData, p') \<Rightarrow>
          if falsy ops forexData
          then (Return \<lparr>content = [TextBlock (failure_text Get_forex_rate)]\<rparr>, p')
          else (Return \<lparr>content = [TextBlock (JSON_stringify ops forexData)]\<rparr>, p'))"

definition get_crypto_price ::
  "'n number_ops \<Rightarrow> 'n upstream \<Rightarrow> jsstring \<Rightarrow> jsstring \<Rightarrow> process \<Rightarrow> tool_result completion \<times> process" where
  "get_crypto_price ops upstream symbol market p =
     (case makeAlphaVantageRequest ops upstream
           [(ascii ''function'', Some (ascii ''CRYPTO_INTRADAY'')),
            (ascii ''symbol'', Some symbol),
            (ascii ''market'', Some market)] p of
        (Throw error, p') \<Rightarrow> (Throw error, p')
      | (Return cryptoData, p') \<Rightarrow>
          if falsy ops cryptoData
          then (Return \<lparr>content = [TextBlock (failure_text Get_crypto_price)]\<rparr>, p')
          else (Return \<lparr>content = [TextBlock (JSON_stringify ops cryptoData)]\<rparr>, p'))"

definition get_technical_indicator ::
  "'n number_ops \<Rightarrow> 'n upstream \<Rightarrow> jsstring \<Rightarrow> jsstring \<Rightarrow> jsstring \<Rightarrow> process \<Rightarrow> tool_result completion \<times> process" where
  "get_technical_indicator ops upstream symbol indicator interval p =
     (case makeAlphaVantageRequest ops upstream
           [(ascii ''function'', Some indicator),
            (ascii ''symbol'', Some symbol),
            (ascii ''interval'', Some interval)] p of
        (Throw error, p') \<Rightarrow> (Throw error, p')
      | (Return indicatorData, p') \<Rightarrow>
          if falsy ops indicatorData
          then (Return \<lparr>content = [TextBlock (failure_text Get_technical_indicator)]\<rparr>, p')
          else (Return \<lparr>content = [TextBlock (JSON_stringify ops indicatorData)]\<rparr>, p'))"


subsection \<open>Argument schemas and dispatch\<close>

text \<open>
  The schema layer runs before a handler: \<open>z.string()\<close> accepts a string,
  \<open>z.enum(values).default(d)\<close> accepts one of the values and puts \<open>d\<close> for an absent
  argument. The arguments of a call are the properties of the caller's object.
\<close>

datatype zod_schema = ZString | ZEnumDefault "jsstring list" jsstring

fun zod_parse :: "zod_schema \<Rightarrow> 'n json option \<Rightarrow> jsstring option" where
  "zod_parse ZString (Some (JStr s)) = Some s"
| "zod_parse ZString _ = None"
| "zod_parse (ZEnumDefault values d) None = Some d"
| "zod_parse (ZEnumDefault values d) (Some (JStr s)) = (if s \<in> set values then Some s else None)"
| "zod_parse (ZEnumDefault values d) (Some _) = None"

text \<open>A call whose arguments passed the schema of its tool: what the handler destructures.\<close>

datatype tool_call =
    Stock_price jsstring
  | Company_overview jsstring
  | Daily_time_series jsstring jsstring
  | Weekly_time_series jsstring
  | Forex_rate jsstring jsstring
  | Crypto_price jsstring jsstring
  | Technical_indicator jsstring jsstring jsstring

fun tool_of :: "tool_call \<Rightarrow> tool" where
  "tool_of (Stock_price symbol) = Get_stock_price"
| "tool_of (Company_overview symbol) = Get_company_overview"
| "tool_of (Daily_time_series symbol outputsize) = Get_daily_time_series"
| "tool_of (Weekly_time_series symbol) = Get_weekly_time_series"
| "tool_of (Forex_rate from_currency to_currency) = Get_forex_rate"
| "tool_of (Crypto_price symbol market) = Get_crypto_price"
| "tool_of (Technical_indicator symbol indicator interval) = Get_technical_indicator"

fun tool_name :: "tool \<Rightarrow> jsstring" where
  "tool_name Get_stock_price = ascii ''get_stock_price''"
| "tool_name Get_company_overview = ascii ''get_company_overview''"
| "tool_name Get_daily_time_series = ascii ''get_daily_time_series''"
| "tool_name Get_weekly_time_series = ascii ''get_weekly_time_series''"
| "tool_name Get_forex_rate = ascii ''get_forex_rate''"
| "tool_name Get_crypto_price = ascii ''get_crypto_price''"
| "tool_name Get_technical_indicator = ascii ''get_technical_indicator''"

fun validate :: "tool \<Rightarrow> (jsstring \<times> 'n json) list \<Rightarrow> tool_call option" where
  "validate Get_stock_price args =
     (case zod_parse ZString (map_of args (ascii ''symbol'')) of
        Some symbol \<Rightarrow> Some (Stock_price symbol)
      | None \<Rightarrow> None)"
| "validate Get_company_overview args =
     (case zod_parse ZString (map_of args (ascii ''symbol'')) of
        Some symbol \<Rightarrow> Some (Company_overview symbol)
      | None \<Rightarrow> None)"
| "validate Get_daily_time_series args =
     (case (zod_parse ZString (map_of args (ascii ''symbol'')),
            zod_parse (ZEnumDefault [ascii ''compact'', ascii ''full''] (ascii ''compact''))
              (map_of args (ascii ''outputsize''))) of
        (Some symbol, Some outputsize) \<Rightarrow> Some (Daily_time_series symbol outputsize)
      | _ \<Rightarrow> None)"
| "validate Get_weekly_time_series args =
     (case zod_parse ZString (map_of args (ascii ''symbol'')) of
        Some symbol \<Rightarrow> Some (Weekly_time_series symbol)
      | None \<Rightarrow> None)"
| "validate Get_forex_rate args =
     (case (zod_parse ZString (map_of args (ascii ''from_currency'')),
            zod_parse ZString (map_of args (ascii ''to_currency''))) of
        (Some from_currency, Some to_currency) \<Rightarrow> Some (Forex_rate from_currency to_currency)
      | _ \<Rightarrow> None)"
| "validate Get_crypto_price args =
     (case (zod_parse ZString (map_of args (ascii ''symbol'')),
            zod_parse ZString (map_of args (ascii ''market''))) of
        (Some symbol, Some market) \<Rightarrow> Some (Crypto_price symbol market)
      | _ \<Rightarrow> None)"
| "validate Get_technical_indicator args =
     (case (zod_parse ZString (map_of args (ascii ''symbol'')),
            zod_parse ZString (map_of args (ascii ''indicator'')),
            zod_parse (ZEnumDefault
                [ascii ''1min'', ascii ''5min'', ascii ''15min'', ascii ''30min'', ascii ''60min'',
                 ascii ''daily'', ascii ''weekly'', ascii ''monthly''] (ascii ''daily''))
              (map_of args (ascii ''interval''))) of
        (Some symbol, Some indicator, Some interval) \<Rightarrow>
          Some (Technical_indicator symbol indicator interval)
      | _ \<Rightarrow> None)"

fun handler ::
  "'n number_ops \<Rightarrow> 'n upstream \<Rightarrow> tool_call \<Rightarrow> process \<Rightarrow> tool_result completion \<times> process" where
  "handler ops upstream (Stock_price symbol) p = get_stock_price ops upstream symbol p"
| "handler ops upstream (Company_overview symbol) p = get_company_overview ops upstream symbol p"
| "handler ops upstream (Daily_time_series symbol outputsize) p =
     get_daily_time_series ops upstream symbol outputsize p"
| "handler ops upstream (Weekly_time_series symbol) p = get_weekly_time_series ops upstream symbol p"
| "handler ops upstream (Forex_rate from_currency to_currency) p =
     get_forex_rate ops upstream from_currency to_currency p"
| "handler ops upstream (Crypto_price symbol market) p = get_crypto_price ops upstream symbol market p"
| "handler ops upstream (Technical_indicator symbol indicator interval) p =
     get_technical_indicator ops upstream symbol indicator interval p"

text \<open>
  The object that the handler of a call passes to \<open>makeAlphaVantageRequest\<close>, tool by
  tool; \<open>handler_Return\<close> and \<open>handler_Throw\<close> below show that the handlers pass it.
\<close>

fun call_params :: "tool_call \<Rightarrow> AlphaVantageParams" where
  "call_params (Stock_price symbol) =
     [(ascii ''function'', Some (ascii ''GLOBAL_QUOTE'')), (ascii ''symbol'', Some symbol)]"
| "call_params (Company_overview symbol) =
     [(ascii ''function'', Some (ascii ''OVERVIEW'')), (ascii ''symbol'', Some symbol)]"
| "call_params (Daily_time_series symbol outputsize) =
     [(ascii ''function'', Some (ascii ''TIME_SERIES_DAILY'')), (ascii ''symbol'', Some symbol),
      (ascii ''outputsize'', Some outputsize)]"
| "call_params (Weekly_time_series symbol) =
     [(ascii ''function'', Some (ascii ''TIME_SERIES_WEEKLY'')), (ascii ''symbol'', Some symbol)]"
| "call_params (Forex_rate from_currency to_currency) =
     [(ascii ''function'', Some (ascii ''CURRENCY_EXCHANGE_RATE'')),
      (ascii ''from_currency'', Some from_currency), (ascii ''to_currency'', Some to_currency)]"
| "call_params (Crypto_price symbol market) =
     [(ascii ''function'', Some (ascii ''CRYPTO_INTRADAY'')), (ascii ''symbol'', Some symbol),
      (ascii ''market'', Some market)]"
| "call_params (Technical_indicator symbol indicator interval) =
     [(ascii ''function'', Some indicator), (ascii ''symbol'', Some symbol),
      (ascii ''interval'', Some interval)]"

text \<open>
  A call reaches a handler when the process runs, its transport is connected, the tool is
  registered and the arguments pass the schema.
\<close>

datatype call_outcome = Not_served | Unknown_tool | Invalid_arguments | Handled "tool_result completion"

definition call_tool ::
  "'n number_ops \<Rightarrow> 'n upstream \<Rightarrow> jsstring \<Rightarrow> (jsstring \<times> 'n json) list \<Rightarrow> process
     \<Rightarrow> call_outcome \<times> process" where
  "call_tool ops upstream name args p =
     (if status p \<noteq> Running \<or> \<not> transport p then (Not_served, p)
      else case find (\<lambda>t. tool_name t = name) (tools p) of
             None \<Rightarrow> (Unknown_tool, p)
           | Some t \<Rightarrow>
               (case validate t args of
                  None \<Rightarrow> (Invalid_arguments, p)
                | Some call \<Rightarrow>
                    (case handler ops upstream call p of (r, p') \<Rightarrow> (Handled r, p'))))"

subsection \<open>Startup\<close>

text \<open>
  The module runs top to bottom: it reads the credential from the environment, throws when
  it is falsy (absent or empty), registers the seven tools, and \<open>main\<close> connects the
  transport. An exception that nothing catches ends the process with exit code 1;
  \<open>main().catch\<close> logs and exits with 1 when connecting fails.
\<close>

definition missing_key_message :: jsstring where
  "missing_key_message =
     ascii ''ALPHA_VANTAGE_API_KEY '' @ [0x73AF, 0x5883, 0x53D8, 0x91CF, 0x662F, 0x5FC5, 0x9700, 0x7684]"

definition running_message :: jsstring where
  "running_message =
     ascii ''Alpha Vantage MCP '' @ [0x670D, 0x52A1, 0x5668, 0x6B63, 0x5728, 0x901A, 0x8FC7] @ ascii '' stdio '' @ [0x8FD0, 0x884C]"

definition fatal_label :: jsstring where
  "fatal_label = ascii ''main() '' @ [0x4E2D, 0x7684, 0x81F4, 0x547D, 0x9519, 0x8BEF] @ ascii '':''"

definition startup :: "jsstring option \<Rightarrow> js_error option \<Rightarrow> process" where
  "startup env_ALPHA_VANTAGE_API_KEY connect_fault =
     (let p = \<lparr>status = Running, API_KEY = env_ALPHA_VANTAGE_API_KEY, tools = [],
               transport = False, requests = [], console = []\<rparr>
      in if (case API_KEY p of None \<Rightarrow> True | Some k \<Rightarrow> k = [])
         then p\<lparr>status := Exited 1,
                console := [Uncaught (Error missing_key_message)]\<rparr>
         else
           let p = p\<lparr>tools := [Get_stock_price, Get_company_overview, Get_daily_time_series,
                                Get_weekly_time_series, Get_forex_rate, Get_crypto_price,
                                Get_technical_indicator]\<rparr>
           in case connect_fault of
                None \<Rightarrow>
                  p\<lparr>transport := True,
                    console := console p @
                      [ConsoleLog running_message]\<rparr>
              | Some error \<Rightarrow>
                  p\<lparr>status := Exited 1,
                    console := console p @
                      [ConsoleError fatal_label error]\<rparr>)"

text \<open>A run of the server: calls handled one after the other, each with its own upstream.\<close>

fun run_calls :: "'n number_ops \<Rightarrow> ('n upstream \<times> tool_call) list \<Rightarrow> process \<Rightarrow> process" where
  "run_calls ops [] p = p"
| "run_calls ops (uc # calls) p = run_calls ops calls (snd (handler ops (fst uc) (snd uc) p))"

section \<open>Reading back what JSON.stringify writes\<close>

subsection \<open>Strings\<close>

text \<open>
  The four hexadecimal digits of \<open>UnicodeEscape\<close> give the code unit back, and
  \<open>parse_string\<close> reads every string that \<open>quote_units\<close> writes.
\<close>

lemma unat_lt_65536: "unat (c :: 16 word) < 65536"
proof -
  have "unat c < 2 ^ LENGTH(16)" by (rule unsigned_less)
  then show ?thesis by simp
qed

lemma unat_hex_digit: "d < 16 \<Longrightarrow> unat (hex_digit d) = (if d < 10 then 48 + d else 87 + d)"
  by (simp add: hex_digit_def unat_of_nat del: of_nat_add)

lemma hex_value_hex_digit: "d < 16 \<Longrightarrow> hex_value (hex_digit d) = Some d"
  by (simp add: hex_value_def word_le_nat_alt unat_hex_digit)

lemma hex4:
  fixes n :: nat
  assumes "n < 65536"
  shows "4096 * (n div 4096 mod 16) + 256 * (n div 256 mod 16) + 16 * (n div 16 mod 16) + n mod 16 = n"
proof -
  have e3: "n mod 256 = 16 * (n div 16 mod 16) + n mod 16"
    using mod_mult2_eq [of n 16 16] by simp
  have e2: "n mod 4096 = 256 * (n div 256 mod 16) + n mod 256"
    using mod_mult2_eq [of n 256 16] by simp
  have e1: "n mod 65536 = 4096 * (n div 4096 mod 16) + n mod 4096"
    using mod_mult2_eq [of n 4096 16] by simp
  have e0: "n mod 65536 = n"
    using assms by simp
  have "4096 * (n div 4096 mod 16) + 256 * (n div 256 mod 16) + 16 * (n div 16 mod 16) + n mod 16
      = 4096 * (n div 4096 mod 16) + (256 * (n div 256 mod 16) + (16 * (n div 16 mod 16) + n mod 16))"
    by (simp only: add.assoc)
  also have "\<dots> = 4096 * (n div 4096 mod 16) + (256 * (n div 256 mod 16) + n mod 256)"
    by (simp only: e3 [symmetric])
  also have "\<dots> = 4096 * (n div 4096 mod 16) + n mod 4096"
    by (simp only: e2 [symmetric])
  also have "\<dots> = n mod 65536"
    by (simp only: e1 [symmetric])
  also have "\<dots> = n"
    by (rule e0)
  finally show ?thesis .
qed

lemma of_nat_hex4:
  "of_nat (4096 * (unat c div 4096 mod 16) + 256 * (unat c div 256 mod 16)
      + 16 * (unat c div 16 mod 16) + unat c mod 16) = (c :: 16 word)"
  by (simp only: hex4 [OF unat_lt_65536]) simp

lemma parse_string_UnicodeEscape:
  "parse_string (UnicodeEscape c @ t) =
     (case parse_string t of None \<Rightarrow> None | Some (str, r) \<Rightarrow> Some (c # str, r))"
proof -
  have "parse_string (UnicodeEscape c @ t) =
     (case parse_string t of None \<Rightarrow> None
      | Some (str, r) \<Rightarrow>
          Some (of_nat (4096 * (unat c div 4096 mod 16) + 256 * (unat c div 256 mod 16)
                  + 16 * (unat c div 16 mod 16) + unat c mod 16) # str, r))"
    by (simp add: UnicodeEscape_def hex_value_hex_digit del: of_nat_add of_nat_mult
          split: option.splits)
  then show ?thesis by (simp only: of_nat_hex4)
qed

lemma parse_string_plain:
  "c \<noteq> 0x22 \<Longrightarrow> c \<noteq> 0x5C \<Longrightarrow> \<not> c < 0x20 \<Longrightarrow>
   parse_string (c # t) =
     (case parse_string t of None \<Rightarrow> None | Some (str, r) \<Rightarrow> Some (c # str, r))"
  by simp

lemma parse_string_short:
  "e \<noteq> 0x75 \<Longrightarrow>
   parse_string (0x5C # e # t) =
     (case unescape e of None \<Rightarrow> None
      | Some u \<Rightarrow> (case parse_string t of None \<Rightarrow> None | Some (str, r) \<Rightarrow> Some (u # str, r)))"
  by simp

lemma parse_string_end: "parse_string (0x22 # t) = Some ([], t)"
  by simp

declare parse_string.simps [simp del]

lemma leading_plain: "is_leading_surrogate c \<Longrightarrow> c \<noteq> 0x22 \<and> c \<noteq> 0x5C \<and> \<not> c < 0x20"
  by (auto simp: is_leading_surrogate_def word_le_nat_alt word_less_nat_alt)

lemma trailing_plain: "is_trailing_surrogate c \<Longrightarrow> c \<noteq> 0x22 \<and> c \<noteq> 0x5C \<and> \<not> c < 0x20"
  by (auto simp: is_trailing_surrogate_def word_le_nat_alt word_less_nat_alt)

text \<open>Strong induction on the length: a surrogate pair takes two code units at once.\<close>

lemma parse_string_quote_units:
  "parse_string (quote_units s @ 0x22 # rest) = Some (s, rest)"
proof (induction "length s" arbitrary: s rule: less_induct)
  case less
  show ?case
  proof (cases s)
    case Nil
    then show ?thesis by (simp add: parse_string_end)
  next
    case (Cons c cs)
    have IHcs: "parse_string (quote_units cs @ 0x22 # rest) = Some (cs, rest)"
      by (rule less) (simp add: Cons)
    show ?thesis
    proof (cases "c = 0x08 \<or> c = 0x09 \<or> c = 0x0A \<or> c = 0x0C \<or> c = 0x0D \<or> c = 0x22 \<or> c = 0x5C")
      case True
      then show ?thesis
        by (elim disjE; simp add: Cons parse_string_short unescape_def IHcs)
    next
      case short: False
      show ?thesis
      proof (cases "c < 0x20")
        case True
        with short show ?thesis
          by (simp add: Cons parse_string_UnicodeEscape IHcs)
      next
        case control: False
        show ?thesis
        proof (cases "is_leading_surrogate c")
          case lead: True
          show ?thesis
          proof (cases cs)
            case Nil
            with short control lead show ?thesis
              by (simp add: Cons parse_string_UnicodeEscape parse_string_end)
          next
            case cs: (Cons d ds)
            have IHds: "parse_string (quote_units ds @ 0x22 # rest) = Some (ds, rest)"
              by (rule less) (simp add: Cons cs)
            show ?thesis
            proof (cases "is_trailing_surrogate d")
              case True
              with short control lead trailing_plain [of d] show ?thesis
                by (simp add: Cons cs parse_string_plain IHds)
            next
              case False
              with short control lead IHcs show ?thesis
                by (simp add: Cons cs parse_string_UnicodeEscape)
            qed
          qed
        next
          case nolead: False
          show ?thesis
          proof (cases "is_trailing_surrogate c")
            case True
            with short control nolead show ?thesis
              by (simp add: Cons parse_string_UnicodeEscape IHcs)
          next
            case False
            with short control nolead show ?thesis
              by (simp add: Cons parse_string_plain IHcs)
          qed
        qed
      qed
    qed
  qed
qed

subsection \<open>White space, literals and number tokens\<close>

declare parse_value.simps [simp del] parse_elements.simps [simp del] parse_members.simps [simp del]

lemma is_ws_simps:
  "is_ws 0x20" "is_ws 0x0A" "\<not> is_ws 0x22" "\<not> is_ws 0x5B" "\<not> is_ws 0x7B" "\<not> is_ws 0x5D"
  "\<not> is_ws 0x7D" "\<not> is_ws 0x2C" "\<not> is_ws 0x3A" "\<not> is_ws 0x6E" "\<not> is_ws 0x74" "\<not> is_ws 0x66"
  by (simp_all add: is_ws_def)

lemma skip_ws_Cons: "skip_ws (c # s) = (if is_ws c then skip_ws s else c # s)"
  by (simp add: skip_ws_def)

lemma skip_ws_Nil: "skip_ws [] = []"
  by (simp add: skip_ws_def)

lemma skip_ws_append: "list_all is_ws w \<Longrightarrow> skip_ws (w @ s) = skip_ws s"
  by (induction w) (simp_all add: skip_ws_Cons)

lemma number_unit_facts:
  "is_number_unit c \<Longrightarrow>
     \<not> is_ws c \<and> c \<noteq> 0x7B \<and> c \<noteq> 0x5B \<and> c \<noteq> 0x22 \<and> c \<noteq> 0x6E \<and> c \<noteq> 0x74 \<and> c \<noteq> 0x66
       \<and> c \<noteq> 0x5D \<and> c \<noteq> 0x7D"
  by (auto simp: is_number_unit_def is_ws_def)

lemma not_number_unit: "\<not> is_number_unit 0x2C" "\<not> is_number_unit 0x0A"
  by (simp_all add: is_number_unit_def)

lemma token_split:
  "list_all is_number_unit tok \<Longrightarrow> takeWhile is_number_unit rest = [] \<Longrightarrow>
     takeWhile is_number_unit (tok @ rest) = tok \<and> dropWhile is_number_unit (tok @ rest) = rest"
proof (induction tok)
  case Nil
  then show ?case by (cases rest) (auto split: if_splits)
next
  case (Cons c tok)
  then show ?case by simp
qed

lemma pv_null:
  "list_all is_ws w \<Longrightarrow> parse_value ops (Suc n) (w @ ascii ''null'' @ rest) = Some (JNull, rest)"
  by (simp add: parse_value.simps(2) skip_ws_append skip_ws_Cons is_ws_def ascii_def)

lemma pv_true:
  "list_all is_ws w \<Longrightarrow> parse_value ops (Suc n) (w @ ascii ''true'' @ rest) = Some (JBool True, rest)"
  by (simp add: parse_value.simps(2) skip_ws_append skip_ws_Cons is_ws_def ascii_def)

lemma pv_false:
  "list_all is_ws w \<Longrightarrow> parse_value ops (Suc n) (w @ ascii ''false'' @ rest) = Some (JBool False, rest)"
  by (simp add: parse_value.simps(2) skip_ws_append skip_ws_Cons is_ws_def ascii_def)

lemma pv_string:
  "list_all is_ws w \<Longrightarrow>
     parse_value ops (Suc n) (w @ QuoteJSONString s @ rest) = Some (JStr s, rest)"
  by (simp add: parse_value.simps(2) QuoteJSONString_def skip_ws_append skip_ws_Cons is_ws_def
        parse_string_quote_units)

lemma pv_array_empty:
  "list_all is_ws w \<Longrightarrow> parse_value ops (Suc n) (w @ ascii ''[]'' @ rest) = Some (JArr [], rest)"
  by (simp add: parse_value.simps(2) skip_ws_append skip_ws_Cons is_ws_def ascii_def)

lemma pv_object_empty:
  "list_all is_ws w \<Longrightarrow> parse_value ops (Suc n) (w @ ascii ''{}'' @ rest) = Some (JObj [], rest)"
  by (simp add: parse_value.simps(2) skip_ws_append skip_ws_Cons is_ws_def ascii_def)

lemma pv_array_open:
  "list_all is_ws w \<Longrightarrow> list_all is_ws w' \<Longrightarrow> \<not> is_ws d \<Longrightarrow> d \<noteq> 0x5D \<Longrightarrow>
     parse_value ops (Suc n) (w @ 0x5B # w' @ d # t) = parse_elements ops n (w' @ d # t) []"
  by (simp add: parse_value.simps(2) skip_ws_append skip_ws_Cons is_ws_simps)

lemma pv_object_open:
  "list_all is_ws w \<Longrightarrow> list_all is_ws w' \<Longrightarrow> \<not> is_ws d \<Longrightarrow> d \<noteq> 0x7D \<Longrightarrow>
     parse_value ops (Suc n) (w @ 0x7B # w' @ d # t) = parse_members ops n (w' @ d # t) []"
  by (simp add: parse_value.simps(2) skip_ws_append skip_ws_Cons is_ws_simps)

lemma parse_value_number_branch:
  "skip_ws s = c # cs \<Longrightarrow> is_number_unit c \<Longrightarrow>
     parse_value ops (Suc n) s =
       (case num_of_token ops (takeWhile is_number_unit (c # cs)) of
          None \<Rightarrow> None
        | Some x \<Rightarrow> Some (JNum x, dropWhile is_number_unit (c # cs)))"
  using number_unit_facts [of c]
  by (simp add: parse_value.simps(2) del: takeWhile.simps dropWhile.simps)

lemma pv_number:
  assumes "list_all is_ws w" and "tok \<noteq> []" and "list_all is_number_unit tok"
    and "num_of_token ops tok = Some x" and "takeWhile is_number_unit rest = []"
  shows "parse_value ops (Suc n) (w @ tok @ rest) = Some (JNum x, rest)"
proof -
  from assms(2) obtain c cs where tok: "tok = c # cs" by (cases tok) auto
  have c: "is_number_unit c" using assms(3) by (simp add: tok)
  have "skip_ws (w @ tok @ rest) = c # (cs @ rest)"
    using number_unit_facts [OF c] assms(1) by (simp add: skip_ws_append skip_ws_Cons tok)
  then have "parse_value ops (Suc n) (w @ tok @ rest) =
       (case num_of_token ops (takeWhile is_number_unit (c # (cs @ rest))) of
          None \<Rightarrow> None
        | Some x \<Rightarrow> Some (JNum x, dropWhile is_number_unit (c # (cs @ rest))))"
    using c by (rule parse_value_number_branch)
  moreover have "c # (cs @ rest) = tok @ rest" by (simp add: tok)
  ultimately show ?thesis
    using token_split [OF assms(3,5)] assms(4) by (simp only: option.case prod.case)
qed

lemma Serialize_head:
  assumes "numbers_read_back ops v"
  shows "\<exists>d t. SerializeJSONProperty ops indent v = d # t \<and> \<not> is_ws d \<and> d \<noteq> 0x5D \<and> d \<noteq> 0x7D"
proof (cases v)
  case (JNum n)
  with assms have tok: "num_is_finite ops n" "num_to_string ops n \<noteq> []"
    "list_all is_number_unit (num_to_string ops n)"
    by (simp_all add: number_reads_back_def)
  then obtain c cs where "num_to_string ops n = c # cs" "is_number_unit c"
    by (cases "num_to_string ops n") auto
  then show ?thesis
    using number_unit_facts [of c] tok(1) by (simp add: JNum)
qed (simp_all add: ascii_def QuoteJSONString_def is_ws_def)

lemma join_head:
  "ts \<noteq> [] \<Longrightarrow> hd ts = d # t \<Longrightarrow> \<exists>t'. join sep ts = d # t'"
  by (induction sep ts rule: join.induct) simp_all

lemma join_Cons:
  "join sep (t # ts) = (if ts = [] then t else t @ sep @ join sep ts)"
  by (cases ts) simp_all

text \<open>
  The elements of an array, once the elements themselves read back (\<open>f\<close> writes an
  element at the inner indentation \<open>ind'\<close>).
\<close>

lemma parse_elements_join:
  assumes "\<And>x w rest fuel. x \<in> set xs \<Longrightarrow> list_all is_ws w \<Longrightarrow>
             takeWhile is_number_unit rest = [] \<Longrightarrow> fuel_for x \<le> fuel \<Longrightarrow>
             parse_value ops fuel (w @ f x @ rest) = Some (x, rest)"
    and "xs \<noteq> []" and "list_all is_ws w" and "list_all is_ws ind'" and "list_all is_ws indent"
    and "sum_list (map (\<lambda>x. Suc (fuel_for x)) xs) \<le> fuel"
  shows "parse_elements ops fuel
           (w @ join (0x2C # 0x0A # ind') (map f xs) @ 0x0A # indent @ 0x5D # rest) acc
         = Some (JArr (acc @ xs), rest)"
  using assms
proof (induction xs arbitrary: w acc fuel)
  case Nil
  then show ?case by simp
next
  case (Cons x xs)
  from Cons.prems(6) obtain m where fuel: "fuel = Suc m"
    and m: "fuel_for x + sum_list (map (\<lambda>x. Suc (fuel_for x)) xs) \<le> m"
    by (cases fuel) auto
  have pv: "parse_value ops m (w @ f x @ R) = Some (x, R)"
    if "takeWhile is_number_unit R = []" for R
    using Cons.prems(1) [of x w R m] Cons.prems(3) that m by simp
  show ?case
  proof (cases "xs = []")
    case True
    have "parse_value ops m (w @ f x @ 0x0A # indent @ 0x5D # rest)
            = Some (x, 0x0A # indent @ 0x5D # rest)"
      by (rule pv) (simp add: not_number_unit)
    then show ?thesis
      using Cons.prems(5)
      by (simp add: True fuel parse_elements.simps(2) skip_ws_Cons skip_ws_append is_ws_simps)
  next
    case False
    have "parse_value ops m (w @ f x @ 0x2C # (0x0A # ind') @
              join (0x2C # 0x0A # ind') (map f xs) @ 0x0A # indent @ 0x5D # rest)
            = Some (x, 0x2C # (0x0A # ind') @
              join (0x2C # 0x0A # ind') (map f xs) @ 0x0A # indent @ 0x5D # rest)"
      by (rule pv) (simp add: not_number_unit)
    moreover have "parse_elements ops m
           ((0x0A # ind') @ join (0x2C # 0x0A # ind') (map f xs) @ 0x0A # indent @ 0x5D # rest)
           (acc @ [x])
         = Some (JArr ((acc @ [x]) @ xs), rest)"
    proof (rule Cons.IH)
      show "list_all is_ws (0x0A # ind')" using Cons.prems(4) by (simp add: is_ws_simps)
      show "sum_list (map (\<lambda>x. Suc (fuel_for x)) xs) \<le> m" using m by simp
    qed (use Cons.prems False in auto)
    ultimately show ?thesis
      by (simp add: False fuel join_Cons parse_elements.simps(2) skip_ws_Cons is_ws_simps)
  qed
qed

subsection \<open>Objects, and the value as a whole\<close>

lemma update_fresh: "k \<notin> fst ` set acc \<Longrightarrow> AList.update k v acc = acc @ [(k, v)]"
  by (induction acc) auto

text \<open>The members of an object: a key that is new goes to the end of the object read so far.\<close>

lemma parse_members_join:
  assumes "\<And>kv w rest fuel. kv \<in> set kvs \<Longrightarrow> list_all is_ws w \<Longrightarrow>
             takeWhile is_number_unit rest = [] \<Longrightarrow> fuel_for (snd kv) \<le> fuel \<Longrightarrow>
             parse_value ops fuel (w @ f (snd kv) @ rest) = Some (snd kv, rest)"
    and "kvs \<noteq> []" and "list_all is_ws w" and "list_all is_ws ind'" and "list_all is_ws indent"
    and "sum_list (map (\<lambda>kv. Suc (fuel_for (snd kv))) kvs) \<le> fuel"
    and "distinct (map fst (acc @ kvs))"
  shows "parse_members ops fuel
           (w @ join (0x2C # 0x0A # ind')
                  (map (\<lambda>kv. QuoteJSONString (fst kv) @ 0x3A # 0x20 # f (snd kv)) kvs)
              @ 0x0A # indent @ 0x7D # rest) acc
         = Some (JObj (acc @ kvs), rest)"
  using assms
proof (induction kvs arbitrary: w acc fuel)
  case Nil
  then show ?case by simp
next
  case (Cons kv kvs)
  obtain k v where kv: "kv = (k, v)" by (cases kv)
  from Cons.prems(6) obtain m where fuel: "fuel = Suc m"
    and m: "fuel_for v + sum_list (map (\<lambda>kv. Suc (fuel_for (snd kv))) kvs) \<le> m"
    by (cases fuel) (auto simp: kv)
  have pv: "parse_value ops m (0x20 # f v @ R) = Some (v, R)"
    if "takeWhile is_number_unit R = []" for R
    using Cons.prems(1) [of kv "[0x20]" R m] that m by (simp add: kv is_ws_simps)
  have fresh: "AList.update k v acc = acc @ [(k, v)]"
    using Cons.prems(7) by (intro update_fresh) (auto simp: kv)
  show ?case
  proof (cases "kvs = []")
    case True
    have "parse_value ops m (0x20 # f v @ 0x0A # indent @ 0x7D # rest)
            = Some (v, 0x0A # indent @ 0x7D # rest)"
      by (rule pv) (simp add: not_number_unit)
    then show ?thesis
      using Cons.prems(3,5) fresh
      by (simp add: True fuel kv parse_members.simps(2) QuoteJSONString_def skip_ws_Cons
            skip_ws_append is_ws_simps parse_string_quote_units)
  next
    case False
    let ?g = "\<lambda>kv. QuoteJSONString (fst kv) @ 0x3A # 0x20 # f (snd kv)"
    have "parse_value ops m (0x20 # f v @ 0x2C # (0x0A # ind') @
              join (0x2C # 0x0A # ind') (map ?g kvs) @ 0x0A # indent @ 0x7D # rest)
            = Some (v, 0x2C # (0x0A # ind') @
              join (0x2C # 0x0A # ind') (map ?g kvs) @ 0x0A # indent @ 0x7D # rest)"
      by (rule pv) (simp add: not_number_unit)
    moreover have "parse_members ops m
           ((0x0A # ind') @ join (0x2C # 0x0A # ind') (map ?g kvs) @ 0x0A # indent @ 0x7D # rest)
           (acc @ [kv])
         = Some (JObj ((acc @ [kv]) @ kvs), rest)"
    proof (rule Cons.IH)
      show "list_all is_ws (0x0A # ind')" using Cons.prems(4) by (simp add: is_ws_simps)
      show "sum_list (map (\<lambda>kv. Suc (fuel_for (snd kv))) kvs) \<le> m" using m by simp
      show "distinct (map fst ((acc @ [kv]) @ kvs))" using Cons.prems(7) by simp
    qed (use Cons.prems False in auto)
    ultimately show ?thesis
      using Cons.prems(3) fresh
      by (simp add: False fuel kv join_Cons parse_members.simps(2) QuoteJSONString_def
            skip_ws_Cons skip_ws_append is_ws_simps parse_string_quote_units)
  qed
qed

lemma ws_gap: "list_all is_ws indent \<Longrightarrow> list_all is_ws (indent @ gap)"
  by (simp add: gap_def is_ws_def)

text \<open>
  Reading a written value back, after white space \<open>w\<close> and before a rest that does not
  go on with a number token, with enough fuel.
\<close>

lemma parse_value_Serialize:
  assumes "numbers_read_back ops v" and "distinct_keys v" and "list_all is_ws w"
    and "list_all is_ws indent" and "takeWhile is_number_unit rest = []" and "fuel_for v \<le> fuel"
  shows "parse_value ops fuel (w @ SerializeJSONProperty ops indent v @ rest) = Some (v, rest)"
  using assms
proof (induction v arbitrary: w indent rest fuel)
  case JNull
  then obtain n where "fuel = Suc n" by (cases fuel) auto
  then show ?case using JNull.prems(3) by (simp add: pv_null)
next
  case (JBool b)
  then obtain n where "fuel = Suc n" by (cases fuel) auto
  then show ?case using JBool.prems(3) by (simp add: pv_true pv_false)
next
  case (JNum x)
  then obtain n where "fuel = Suc n" by (cases fuel) auto
  then show ?case
    using JNum.prems(1,3,5) by (simp add: number_reads_back_def pv_number)
next
  case (JStr s)
  then obtain n where "fuel = Suc n" by (cases fuel) auto
  then show ?case using JStr.prems(3) by (simp add: pv_string)
next
  case (JArr xs)
  from JArr.prems(6) obtain n where fuel: "fuel = Suc n"
    and n: "sum_list (map (\<lambda>x. Suc (fuel_for x)) xs) \<le> n"
    by (cases fuel) auto
  show ?case
  proof (cases "xs = []")
    case True
    then show ?thesis using JArr.prems(3) by (simp add: fuel pv_array_empty)
  next
    case False
    let ?ind = "indent @ gap"
    let ?f = "SerializeJSONProperty ops ?ind"
    let ?tail = "0x0A # indent @ 0x5D # rest"
    have ws: "list_all is_ws ?ind" using JArr.prems(4) by (rule ws_gap)
    have elem: "parse_value ops fuel' (w' @ ?f x @ rest') = Some (x, rest')"
      if "x \<in> set xs" "list_all is_ws w'" "takeWhile is_number_unit rest' = []" "fuel_for x \<le> fuel'"
      for x w' rest' fuel'
    proof (rule JArr.IH [OF that(1) _ _ that(2) ws that(3,4)])
      show "numbers_read_back ops x" using JArr.prems(1) that(1) by (simp add: list_all_iff)
      show "distinct_keys x" using JArr.prems(2) that(1) by (simp add: list_all_iff)
    qed
    from False obtain x xs' where xs: "xs = x # xs'" by (cases xs) auto
    have "numbers_read_back ops x" using JArr.prems(1) by (simp add: xs)
    from Serialize_head [OF this, of ?ind]
    obtain d t where hd: "?f x = d # t" "\<not> is_ws d" "d \<noteq> 0x5D" by blast
    have "\<exists>t'. join (0x2C # 0x0A # ?ind) (map ?f xs) = d # t'"
      by (rule join_head [where t = t]) (simp_all add: xs hd)
    then obtain t' where j: "join (0x2C # 0x0A # ?ind) (map ?f xs) = d # t'" ..
    have unfold: "w @ SerializeJSONProperty ops indent (JArr xs) @ rest =
        w @ 0x5B # (0x0A # ?ind) @ join (0x2C # 0x0A # ?ind) (map ?f xs) @ ?tail"
      using False by simp
    have "parse_value ops (Suc n) (w @ 0x5B # (0x0A # ?ind) @ d # (t' @ ?tail)) =
        parse_elements ops n ((0x0A # ?ind) @ d # (t' @ ?tail)) []"
      by (rule pv_array_open) (use JArr.prems(3) ws hd in \<open>simp_all add: is_ws_simps\<close>)
    moreover have "parse_elements ops n
        ((0x0A # ?ind) @ join (0x2C # 0x0A # ?ind) (map ?f xs) @ ?tail) [] = Some (JArr ([] @ xs), rest)"
      by (rule parse_elements_join)
         (use elem False ws JArr.prems(4) n in \<open>simp_all add: is_ws_simps\<close>)
    ultimately show ?thesis
      unfolding fuel unfold by (simp add: j)
  qed
next
  case (JObj kvs)
  from JObj.prems(6) obtain n where fuel: "fuel = Suc n"
    and n: "sum_list (map (\<lambda>kv. Suc (fuel_for (snd kv))) kvs) \<le> n"
    by (cases fuel) auto
  show ?case
  proof (cases "kvs = []")
    case True
    then show ?thesis using JObj.prems(3) by (simp add: fuel pv_object_empty)
  next
    case False
    let ?ind = "indent @ gap"
    let ?f = "SerializeJSONProperty ops ?ind"
    let ?g = "\<lambda>kv. QuoteJSONString (fst kv) @ 0x3A # 0x20 # ?f (snd kv)"
    let ?tail = "0x0A # indent @ 0x7D # rest"
    have ws: "list_all is_ws ?ind" using JObj.prems(4) by (rule ws_gap)
    have elem: "parse_value ops fuel' (w' @ ?f (snd kv) @ rest') = Some (snd kv, rest')"
      if "kv \<in> set kvs" "list_all is_ws w'" "takeWhile is_number_unit rest' = []"
        "fuel_for (snd kv) \<le> fuel'"
      for kv w' rest' fuel'
    proof (rule JObj.IH [OF that(1) _ _ _ that(2) ws that(3,4)])
      show "snd kv \<in> Basic_BNFs.snds kv" by (rule snds.intros)
      show "numbers_read_back ops (snd kv)" using JObj.prems(1) that(1) by (simp add: list_all_iff)
      show "distinct_keys (snd kv)" using JObj.prems(2) that(1) by (simp add: list_all_iff)
    qed
    from False obtain kv kvs' where kvs: "kvs = kv # kvs'" by (cases kvs) auto
    have "\<exists>t'. join (0x2C # 0x0A # ?ind) (map ?g kvs) = 0x22 # t'"
      by (rule join_head [where t = "quote_units (fst kv) @ 0x22 # 0x3A # 0x20 # ?f (snd kv)"])
         (simp_all add: kvs QuoteJSONString_def)
    then obtain t' where j: "join (0x2C # 0x0A # ?ind) (map ?g kvs) = 0x22 # t'" ..
    have unfold: "w @ SerializeJSONProperty ops indent (JObj kvs) @ rest =
        w @ 0x7B # (0x0A # ?ind) @ join (0x2C # 0x0A # ?ind) (map ?g kvs) @ ?tail"
      using False by simp
    have "parse_value ops (Suc n) (w @ 0x7B # (0x0A # ?ind) @ 0x22 # (t' @ ?tail)) =
        parse_members ops n ((0x0A # ?ind) @ 0x22 # (t' @ ?tail)) []"
      by (rule pv_object_open) (use JObj.prems(3) ws in \<open>simp_all add: is_ws_simps\<close>)
    moreover have "parse_members ops n
        ((0x0A # ?ind) @ join (0x2C # 0x0A # ?ind) (map ?g kvs) @ ?tail) [] = Some (JObj ([] @ kvs), rest)"
      by (rule parse_members_join)
         (use elem False ws JObj.prems(2,4) n in \<open>simp_all add: is_ws_simps\<close>)
    ultimately show ?thesis
      unfolding fuel unfold by (simp add: j)
  qed
qed

text \<open>The fuel of \<open>JSON_parse\<close> is enough: a written text is longer than the fuel it takes.\<close>

lemma join_length:
  "ts \<noteq> [] \<Longrightarrow> 2 \<le> length sep \<Longrightarrow>
     sum_list (map (\<lambda>t. Suc (Suc (length t))) ts) \<le> length (join sep ts) + 2"
  by (induction sep ts rule: join.induct) simp_all

lemma fuel_for_length: "fuel_for v \<le> Suc (length (SerializeJSONProperty ops indent v))"
proof (induction v arbitrary: indent)
  case (JArr xs)
  show ?case
  proof (cases "xs = []")
    case True
    then show ?thesis by simp
  next
    case False
    let ?f = "SerializeJSONProperty ops (indent @ gap)"
    let ?sep = "0x2C # 0x0A # indent @ gap"
    have "sum_list (map (\<lambda>x. Suc (fuel_for x)) xs) \<le> sum_list (map (\<lambda>x. Suc (Suc (length (?f x)))) xs)"
      by (rule sum_list_mono) (simp add: JArr.IH)
    also have "\<dots> = sum_list (map (\<lambda>t. Suc (Suc (length t))) (map ?f xs))"
      by (simp add: comp_def)
    also have "\<dots> \<le> length (join ?sep (map ?f xs)) + 2"
      by (rule join_length) (use False in simp_all)
    finally show ?thesis using False by simp
  qed
next
  case (JObj kvs)
  show ?case
  proof (cases "kvs = []")
    case True
    then show ?thesis by simp
  next
    case False
    let ?f = "SerializeJSONProperty ops (indent @ gap)"
    let ?g = "\<lambda>kv. QuoteJSONString (fst kv) @ 0x3A # 0x20 # ?f (snd kv)"
    let ?sep = "0x2C # 0x0A # indent @ gap"
    have "fuel_for (snd kv) \<le> Suc (length (?g kv))" if "kv \<in> set kvs" for kv
    proof -
      have "fuel_for (snd kv) \<le> Suc (length (?f (snd kv)))"
        by (rule JObj.IH [OF that]) (rule snds.intros)
      then show ?thesis by simp
    qed
    then have "sum_list (map (\<lambda>kv. Suc (fuel_for (snd kv))) kvs)
        \<le> sum_list (map (\<lambda>kv. Suc (Suc (length (?g kv)))) kvs)"
      by (intro sum_list_mono) simp
    also have "\<dots> = sum_list (map (\<lambda>t. Suc (Suc (length t))) (map ?g kvs))"
      by (simp add: comp_def)
    also have "\<dots> \<le> length (join ?sep (map ?g kvs)) + 2"
      by (rule join_length) (use False in simp_all)
    finally show ?thesis using False by simp
  qed
qed simp_all

lemma JSON_parse_stringify:
  assumes "numbers_read_back ops v" and "distinct_keys v"
  shows "JSON_parse ops (JSON_stringify ops v) = Some v"
  using parse_value_Serialize [OF assms, of "[]" "[]" "[]" "Suc (length (JSON_stringify ops v))"]
    fuel_for_length [of v ops "[]"]
  by (simp add: JSON_parse_def JSON_stringify_def skip_ws_Nil)

section \<open>Properties of the gateway and of the handlers\<close>

subsection \<open>ASCII literals\<close>

lemma unat_of_char: "unat (of_char c :: 16 word) = of_char c"
proof -
  have "(of_char c :: 16 word) = of_nat (of_char c)"
    by (simp add: of_nat_of_char)
  then have "unat (of_char c :: 16 word) = (of_char c :: nat) mod 2 ^ 16"
    by (simp add: unat_of_nat)
  moreover have "(of_char c :: nat) < 2 ^ 16"
    by (rule less_trans [OF nat_of_char_less_256]) simp
  ultimately show ?thesis by simp
qed

lemma inj_of_char_word: "inj (of_char :: char \<Rightarrow> 16 word)"
proof (rule injI)
  fix c d :: char
  assume "(of_char c :: 16 word) = of_char d"
  then have "unat (of_char c :: 16 word) = unat (of_char d :: 16 word)" by simp
  then show "c = d" by (simp add: unat_of_char)
qed

lemma ascii_eq_iff [simp]: "ascii s = ascii t \<longleftrightarrow> s = t"
  by (simp add: ascii_def inj_map_eq_map [OF inj_of_char_word])

lemma ascii_Nil [simp]: "ascii s = [] \<longleftrightarrow> s = []" "[] = ascii s \<longleftrightarrow> s = []"
  by (auto simp: ascii_def)

subsection \<open>What a call does, by the outcome of its request\<close>

lemma response_Return_truthy:
  "response_data_or_throw ops outcome = Return data \<Longrightarrow> \<not> falsy ops data"
  by (auto simp: response_data_or_throw_def split: http_outcome.splits option.splits if_splits)

lemma gateway_Return:
  "response_data_or_throw ops (upstream (upstream_request p params)) = Return data \<Longrightarrow>
   makeAlphaVantageRequest ops upstream params p =
     (Return data, p\<lparr>requests := requests p @ [upstream_request p params]\<rparr>)"
  by (simp add: makeAlphaVantageRequest_def request_or_throw_def)

lemma gateway_Throw:
  "response_data_or_throw ops (upstream (upstream_request p params)) = Throw error \<Longrightarrow>
   makeAlphaVantageRequest ops upstream params p =
     (Return JNull,
      p\<lparr>requests := requests p @ [upstream_request p params],
        console := console p @ [ConsoleError request_failed_label error]\<rparr>)"
  by (simp add: makeAlphaVantageRequest_def request_or_throw_def)

lemmas handler_defs = get_stock_price_def get_company_overview_def get_daily_time_series_def
  get_weekly_time_series_def get_forex_rate_def get_crypto_price_def get_technical_indicator_def

lemma handler_Return:
  "response_data_or_throw ops (upstream (upstream_request p (call_params c))) = Return data \<Longrightarrow>
   handler ops upstream c p =
     (Return \<lparr>content = [TextBlock (JSON_stringify ops data)]\<rparr>,
      p\<lparr>requests := requests p @ [upstream_request p (call_params c)]\<rparr>)"
  by (induction c) (simp_all add: handler_defs gateway_Return response_Return_truthy)

lemma handler_Throw:
  "response_data_or_throw ops (upstream (upstream_request p (call_params c))) = Throw error \<Longrightarrow>
   handler ops upstream c p =
     (Return \<lparr>content = [TextBlock (failure_text (tool_of c))]\<rparr>,
      p\<lparr>requests := requests p @ [upstream_request p (call_params c)],
        console := console p @ [ConsoleError request_failed_label error]\<rparr>)"
  by (induction c) (simp_all add: handler_defs gateway_Throw del: failure_text.simps)

declare handler.simps [simp del]

lemma handler_requests:
  "requests (snd (handler ops upstream c p)) = requests p @ [upstream_request p (call_params c)]"
  by (cases "response_data_or_throw ops (upstream (upstream_request p (call_params c)))")
     (simp_all add: handler_Return handler_Throw)

lemma handler_last_request:
  "last (requests (snd (handler ops upstream c p))) = upstream_request p (call_params c)"
  by (simp add: handler_requests)

lemma handler_API_KEY: "API_KEY (snd (handler ops upstream c p)) = API_KEY p"
  by (cases "response_data_or_throw ops (upstream (upstream_request p (call_params c)))")
     (simp_all add: handler_Return handler_Throw)

lemma handler_status: "status (snd (handler ops upstream c p)) = status p"
  by (cases "response_data_or_throw ops (upstream (upstream_request p (call_params c)))")
     (simp_all add: handler_Return handler_Throw)

lemma handler_never_throws: "\<exists>result. fst (handler ops upstream c p) = Return result"
  by (cases "response_data_or_throw ops (upstream (upstream_request p (call_params c)))")
     (simp_all add: handler_Return handler_Throw)

lemma failure_texts_distinct:
  "distinct (map failure_text [Get_stock_price, Get_company_overview, Get_daily_time_series,
      Get_weekly_time_series, Get_forex_rate, Get_crypto_price, Get_technical_indicator])"
  by simp

subsection \<open>Dispatch and the query of a request\<close>

lemma tool_name_inj: "tool_name t = tool_name u \<longleftrightarrow> t = u"
  by (cases t; cases u; simp)

lemma find_tool: "t \<in> set ts \<Longrightarrow> find (\<lambda>u. tool_name u = tool_name t) ts = Some t"
  by (induction ts) (auto simp: tool_name_inj)

lemma call_tool_handled:
  assumes "status p = Running" and "transport p" and "t \<in> set (tools p)"
    and "validate t args = Some c"
  shows "call_tool ops upstream (tool_name t) args p =
           (Handled (fst (handler ops upstream c p)), snd (handler ops upstream c p))"
  using assms by (simp add: call_tool_def find_tool split: prod.splits)

lemma update_apikey_params:
  "axios_query (AList.update (ascii ''apikey'') k (call_params c)) =
     axios_query (call_params c) @ (case k of None \<Rightarrow> [] | Some v \<Rightarrow> [(ascii ''apikey'', v)])"
  by (cases c; cases k; simp)

lemma function_once:
  "length (filter (\<lambda>kv. fst kv = ascii ''function'') (axios_query (call_params c))) = 1"
  by (cases c; simp)

lemma apikey_none:
  "filter (\<lambda>kv. fst kv = ascii ''apikey'') (axios_query (call_params c)) = []"
  by (cases c; simp)

lemma request_invariant:
  assumes "API_KEY p = Some k"
  shows "length (filter (\<lambda>kv. fst kv = ascii ''function'') (query (upstream_request p (call_params c)))) = 1 \<and>
         filter (\<lambda>kv. fst kv = ascii ''apikey'') (query (upstream_request p (call_params c))) = [(ascii ''apikey'', k)]"
  using assms by (simp add: upstream_request_def update_apikey_params function_once apikey_none)

lemma run_calls_API_KEY: "API_KEY (run_calls ops calls p) = API_KEY p"
  by (induction calls arbitrary: p) (simp_all add: handler_API_KEY)

lemma run_calls_length: "length (requests (run_calls ops calls p)) = length (requests p) + length calls"
  by (induction calls arbitrary: p) (simp_all add: handler_requests)

lemma run_calls_requests:
  "set (requests (run_calls ops calls p)) \<subseteq>
     set (requests p) \<union> {upstream_request q (call_params c) | q c. API_KEY q = API_KEY p}"
proof (induction calls arbitrary: p)
  case Nil
  then show ?case by simp
next
  case (Cons uc calls)
  let ?p' = "snd (handler ops (fst uc) (snd uc) p)"
  have "set (requests (run_calls ops (uc # calls) p)) = set (requests (run_calls ops calls ?p'))"
    by simp
  also have "\<dots> \<subseteq> set (requests ?p') \<union> {upstream_request q (call_params c) | q c. API_KEY q = API_KEY ?p'}"
    by (rule Cons.IH)
  also have "\<dots> \<subseteq> set (requests p) \<union> {upstream_request q (call_params c) | q c. API_KEY q = API_KEY p}"
    by (auto simp: handler_requests handler_API_KEY)
  finally show ?case .
qed

lemma startup_Running:
  "status (startup env connect_fault) = Running \<Longrightarrow>
     \<exists>k. env = Some k \<and> k \<noteq> [] \<and> API_KEY (startup env connect_fault) = Some k \<and>
         requests (startup env connect_fault) = []"
  by (auto simp: startup_def Let_def split: option.splits if_splits)

lemma startup_demo:
  "status (startup (Some (ascii ''demo'')) None) = Running"
  "transport (startup (Some (ascii ''demo'')) None)"
  "API_KEY (startup (Some (ascii ''demo'')) None) = Some (ascii ''demo'')"
  "requests (startup (Some (ascii ''demo'')) None) = []"
  "tools (startup (Some (ascii ''demo'')) None) =
     [Get_stock_price, Get_company_overview, Get_daily_time_series, Get_weekly_time_series,
      Get_forex_rate, Get_crypto_price, Get_technical_indicator]"
  by (simp_all add: startup_def)

section \<open>The claims about the server\<close>

text \<open>
  C2. A call whose request fails (axios rejects, or the response has no data, or its data
  is falsy: the body of the \<open>try\<close> throws) returns normally, with exactly one text block
  that holds the failure text of its tool; the seven failure texts are pairwise distinct.
  The hypothesis is on the outcome of the request that the call issued.
\<close>

theorem failed_call_returns_failure_text:
  assumes "response_data_or_throw ops
             (upstream (last (requests (snd (handler ops upstream c p))))) = Throw error"
  shows "fst (handler ops upstream c p) =
           Return \<lparr>content = [TextBlock (failure_text (tool_of c))]\<rparr> \<and>
         distinct (map failure_text [Get_stock_price, Get_company_overview, Get_daily_time_series,
           Get_weekly_time_series, Get_forex_rate, Get_crypto_price, Get_technical_indicator])"
proof -
  from assms
  have "response_data_or_throw ops (upstream (upstream_request p (call_params c))) = Throw error"
    by (simp only: handler_last_request)
  then have "fst (handler ops upstream c p) =
      Return \<lparr>content = [TextBlock (failure_text (tool_of c))]\<rparr>"
    by (simp add: handler_Throw)
  then show ?thesis using failure_texts_distinct by blast
qed

text \<open>Witness: \<open>get_stock_price\<close> for AAPL, the upstream answering with an empty body.\<close>

theorem failed_call_returns_failure_text_witness:
  "response_data_or_throw jsnumber_ops
     (mock_upstream (Resolves (Some (JStr [])))
        (last (requests (snd (handler jsnumber_ops (mock_upstream (Resolves (Some (JStr []))))
           (Stock_price (ascii ''AAPL'')) (startup (Some (ascii ''demo'')) None))))))
     = Throw (Error invalid_response_message) \<and>
   fst (handler jsnumber_ops (mock_upstream (Resolves (Some (JStr [])))) (Stock_price (ascii ''AAPL''))
         (startup (Some (ascii ''demo'')) None))
     = Return \<lparr>content = [TextBlock (failure_text Get_stock_price)]\<rparr>"
  using failed_call_returns_failure_text
    [of jsnumber_ops "mock_upstream (Resolves (Some (JStr [])))" "Stock_price (ascii ''AAPL'')"
      "startup (Some (ascii ''demo'')) None" "Error invalid_response_message"]
  by (simp add: mock_upstream_def response_data_or_throw_def)

text \<open>
  C3, as the code has it. \<open>makeAlphaVantageRequest\<close> always returns, never throws. When
  axios rejects, it logs the error that axios rejected with and returns \<open>null\<close>. When the
  response has no data, or data that is falsy (\<open>null\<close>, \<open>false\<close>, the empty string of
  an empty body, a number that is zero), it logs \<open>Error\<close> with the message of line 295
  and returns \<open>null\<close>. When the data of the response is truthy, it returns the data as
  it is and logs nothing. In every case the request was handed to \<open>axios.get\<close>.
\<close>

theorem gateway_returns_data_or_null:
  "(\<exists>v p'. makeAlphaVantageRequest ops upstream params p = (Return v, p')) \<and>
   (\<forall>error. upstream (upstream_request p params) = Rejects error \<longrightarrow>
      makeAlphaVantageRequest ops upstream params p =
        (Return JNull,
         p\<lparr>requests := requests p @ [upstream_request p params],
           console := console p @ [ConsoleError request_failed_label error]\<rparr>)) \<and>
   (upstream (upstream_request p params) = Resolves None \<longrightarrow>
      makeAlphaVantageRequest ops upstream params p =
        (Return JNull,
         p\<lparr>requests := requests p @ [upstream_request p params],
           console := console p @
             [ConsoleError request_failed_label (Error invalid_response_message)]\<rparr>)) \<and>
   (\<forall>data. upstream (upstream_request p params) = Resolves (Some data) \<and> falsy ops data \<longrightarrow>
      makeAlphaVantageRequest ops upstream params p =
        (Return JNull,
         p\<lparr>requests := requests p @ [upstream_request p params],
           console := console p @
             [ConsoleError request_failed_label (Error invalid_response_message)]\<rparr>)) \<and>
   falsy ops JNull \<and> falsy ops (JBool False) \<and> falsy ops (JStr []) \<and>
   (falsy ops (JNum n) \<longleftrightarrow> num_is_falsy ops n) \<and>
   (\<forall>data. upstream (upstream_request p params) = Resolves (Some data) \<and> \<not> falsy ops data \<longrightarrow>
      makeAlphaVantageRequest ops upstream params p =
        (Return data, p\<lparr>requests := requests p @ [upstream_request p params]\<rparr>))"
proof -
  have 1: "\<exists>v p'. makeAlphaVantageRequest ops upstream params p = (Return v, p')"
    by (cases "response_data_or_throw ops (upstream (upstream_request p params))")
       (simp_all add: gateway_Return gateway_Throw)
  have 2: "makeAlphaVantageRequest ops upstream params p =
        (Return JNull,
         p\<lparr>requests := requests p @ [upstream_request p params],
           console := console p @ [ConsoleError request_failed_label error]\<rparr>)"
    if "upstream (upstream_request p params) = Rejects error" for error
  proof -
    from that
    have "response_data_or_throw ops (upstream (upstream_request p params)) = Throw error"
      by (simp add: response_data_or_throw_def)
    then show ?thesis by (rule gateway_Throw)
  qed
  have 3: "makeAlphaVantageRequest ops upstream params p =
        (Return JNull,
         p\<lparr>requests := requests p @ [upstream_request p params],
           console := console p @
             [ConsoleError request_failed_label (Error invalid_response_message)]\<rparr>)"
    if "upstream (upstream_request p params) = Resolves None"
  proof -
    from that
    have "response_data_or_throw ops (upstream (upstream_request p params)) =
        Throw (Error invalid_response_message)"
      by (simp add: response_data_or_throw_def)
    then show ?thesis by (rule gateway_Throw)
  qed
  have 4: "makeAlphaVantageRequest ops upstream params p =
        (Return JNull,
         p\<lparr>requests := requests p @ [upstream_request p params],
           console := console p @
             [ConsoleError request_failed_label (Error invalid_response_message)]\<rparr>)"
    if "upstream (upstream_request p params) = Resolves (Some data) \<and> falsy ops data" for data
  proof -
    from that
    have "response_data_or_throw ops (upstream (upstream_request p params)) =
        Throw (Error invalid_response_message)"
      by (simp add: response_data_or_throw_def)
    then show ?thesis by (rule gateway_Throw)
  qed
  have 5: "makeAlphaVantageRequest ops upstream params p =
        (Return data, p\<lparr>requests := requests p @ [upstream_request p params]\<rparr>)"
    if "upstream (upstream_request p params) = Resolves (Some data) \<and> \<not> falsy ops data" for data
  proof -
    from that
    have "response_data_or_throw ops (upstream (upstream_request p params)) = Return data"
      by (simp add: response_data_or_throw_def)
    then show ?thesis by (rule gateway_Return)
  qed
  have 6: "falsy ops JNull \<and> falsy ops (JBool False) \<and> falsy ops (JStr []) \<and>
      (falsy ops (JNum n) \<longleftrightarrow> num_is_falsy ops n)"
    by simp
  from 1 2 3 4 5 6 show ?thesis by blast
qed

text \<open>
  Witness: a timeout is logged and \<open>null\<close> returned; data that is the number zero is
  replaced by \<open>null\<close>, with the error of line 295 logged; an object is returned as it is.
\<close>

theorem gateway_returns_data_or_null_witness:
  "makeAlphaVantageRequest jsnumber_ops (mock_upstream (Rejects (AxiosError Timeout)))
     [(ascii ''function'', Some (ascii ''GLOBAL_QUOTE'')), (ascii ''symbol'', Some (ascii ''AAPL''))]
     (startup (Some (ascii ''demo'')) None) =
   (Return JNull,
    (startup (Some (ascii ''demo'')) None)
      \<lparr>requests := requests (startup (Some (ascii ''demo'')) None) @
         [upstream_request (startup (Some (ascii ''demo'')) None)
            [(ascii ''function'', Some (ascii ''GLOBAL_QUOTE'')),
             (ascii ''symbol'', Some (ascii ''AAPL''))]],
       console := console (startup (Some (ascii ''demo'')) None) @
         [ConsoleError request_failed_label (AxiosError Timeout)]\<rparr>) \<and>
   makeAlphaVantageRequest jsnumber_ops (mock_upstream (Resolves (Some (JNum (Integral 0)))))
     [(ascii ''function'', Some (ascii ''GLOBAL_QUOTE'')), (ascii ''symbol'', Some (ascii ''AAPL''))]
     (startup (Some (ascii ''demo'')) None) =
   (Return JNull,
    (startup (Some (ascii ''demo'')) None)
      \<lparr>requests := requests (startup (Some (ascii ''demo'')) None) @
         [upstream_request (startup (Some (ascii ''demo'')) None)
            [(ascii ''function'', Some (ascii ''GLOBAL_QUOTE'')),
             (ascii ''symbol'', Some (ascii ''AAPL''))]],
       console := console (startup (Some (ascii ''demo'')) None) @
         [ConsoleError request_failed_label (Error invalid_response_message)]\<rparr>) \<and>
   makeAlphaVantageRequest jsnumber_ops
     (mock_upstream (Resolves (Some (JObj [(ascii ''price'', JNum (Integral 42))]))))
     [(ascii ''function'', Some (ascii ''GLOBAL_QUOTE'')), (ascii ''symbol'', Some (ascii ''AAPL''))]
     (startup (Some (ascii ''demo'')) None) =
   (Return (JObj [(ascii ''price'', JNum (Integral 42))]),
    (startup (Some (ascii ''demo'')) None)
      \<lparr>requests := requests (startup (Some (ascii ''demo'')) None) @
         [upstream_request (startup (Some (ascii ''demo'')) None)
            [(ascii ''function'', Some (ascii ''GLOBAL_QUOTE'')),
             (ascii ''symbol'', Some (ascii ''AAPL''))]]\<rparr>)"
proof -
  let ?params = "[(ascii ''function'', Some (ascii ''GLOBAL_QUOTE'')),
                  (ascii ''symbol'', Some (ascii ''AAPL''))]"
  let ?p = "startup (Some (ascii ''demo'')) None"
  have zero: "falsy jsnumber_ops (JNum (Integral 0))"
    by (simp add: jsnumber_ops_def)
  have object: "\<not> falsy jsnumber_ops (JObj [(ascii ''price'', JNum (Integral 42))])"
    by simp
  have "mock_upstream (Rejects (AxiosError Timeout)) (upstream_request ?p ?params) =
      Rejects (AxiosError Timeout)"
    by (simp add: mock_upstream_def)
  with gateway_returns_data_or_null
    [of jsnumber_ops "mock_upstream (Rejects (AxiosError Timeout))" ?params ?p]
  have 1: "makeAlphaVantageRequest jsnumber_ops (mock_upstream (Rejects (AxiosError Timeout)))
      ?params ?p =
      (Return JNull,
       ?p\<lparr>requests := requests ?p @ [upstream_request ?p ?params],
          console := console ?p @ [ConsoleError request_failed_label (AxiosError Timeout)]\<rparr>)"
    by blast
  have "mock_upstream (Resolves (Some (JNum (Integral 0)))) (upstream_request ?p ?params) =
      Resolves (Some (JNum (Integral 0)))"
    by (simp add: mock_upstream_def)
  with zero gateway_returns_data_or_null
    [of jsnumber_ops "mock_upstream (Resolves (Some (JNum (Integral 0))))" ?params ?p]
  have 2: "makeAlphaVantageRequest jsnumber_ops
      (mock_upstream (Resolves (Some (JNum (Integral 0))))) ?params ?p =
      (Return JNull,
       ?p\<lparr>requests := requests ?p @ [upstream_request ?p ?params],
          console := console ?p @
            [ConsoleError request_failed_label (Error invalid_response_message)]\<rparr>)"
    by blast
  have "mock_upstream (Resolves (Some (JObj [(ascii ''price'', JNum (Integral 42))])))
      (upstream_request ?p ?params) =
      Resolves (Some (JObj [(ascii ''price'', JNum (Integral 42))]))"
    by (simp add: mock_upstream_def)
  with object gateway_returns_data_or_null
    [of jsnumber_ops "mock_upstream (Resolves (Some (JObj [(ascii ''price'', JNum (Integral 42))])))"
      ?params ?p]
  have 3: "makeAlphaVantageRequest jsnumber_ops
      (mock_upstream (Resolves (Some (JObj [(ascii ''price'', JNum (Integral 42))])))) ?params ?p =
      (Return (JObj [(ascii ''price'', JNum (Integral 42))]),
       ?p\<lparr>requests := requests ?p @ [upstream_request ?p ?params]\<rparr>)"
    by blast
  from 1 2 3 show ?thesis by (simp only: simp_thms)
qed

text \<open>
  C3 as stated fails: a response whose body is the JSON text \<open>false\<close> has a body that is
  not empty, and its parsed payload is \<open>false\<close>; the gateway does not return that payload.
\<close>

theorem gateway_nonempty_body_counterexample:
  "fst (makeAlphaVantageRequest jsnumber_ops (mock_upstream (Resolves (Some (JBool False))))
          [(ascii ''function'', Some (ascii ''GLOBAL_QUOTE'')), (ascii ''symbol'', Some (ascii ''AAPL''))]
          (startup (Some (ascii ''demo'')) None))
   \<noteq> Return (JBool False)"
  by (simp add: gateway_Throw mock_upstream_def response_data_or_throw_def)

text \<open>
  C4. With the credential absent from the environment, startup ends the process with exit
  code 1 and the uncaught error of line 11 as its diagnostic: no tool is registered, the
  transport is not connected, and no call is served: a call leaves the process as it is,
  with no request issued. A call that is handled always returns a result and leaves the
  status of the process as it was.
\<close>

theorem missing_credential_stops_startup:
  "status (startup None connect_fault) = Exited 1 \<and>
   console (startup None connect_fault) = [Uncaught (Error missing_key_message)] \<and>
   tools (startup None connect_fault) = [] \<and>
   \<not> transport (startup None connect_fault) \<and>
   call_tool ops upstream name args (startup None connect_fault) =
     (Not_served, startup None connect_fault) \<and>
   (\<exists>result. fst (handler ops upstream c p) = Return result) \<and>
   status (snd (handler ops upstream c p)) = status p"
  by (simp add: startup_def call_tool_def handler_never_throws handler_status)

text \<open>Witness: no credential; and a call on a running server whose upstream is unreachable.\<close>

theorem missing_credential_stops_startup_witness:
  "status (startup None None) = Exited 1 \<and>
   console (startup None None) = [Uncaught (Error missing_key_message)] \<and>
   tools (startup None None) = [] \<and>
   \<not> transport (startup None None) \<and>
   call_tool jsnumber_ops (mock_upstream (Rejects (AxiosError NetworkError)))
          (ascii ''get_stock_price'') [(ascii ''symbol'', JStr (ascii ''AAPL''))]
          (startup None None) = (Not_served, startup None None) \<and>
   (\<exists>result. fst (handler jsnumber_ops (mock_upstream (Rejects (AxiosError NetworkError)))
                     (Stock_price (ascii ''AAPL'')) (startup (Some (ascii ''demo'')) None))
               = Return result) \<and>
   status (snd (handler jsnumber_ops (mock_upstream (Rejects (AxiosError NetworkError)))
                  (Stock_price (ascii ''AAPL'')) (startup (Some (ascii ''demo'')) None)))
     = status (startup (Some (ascii ''demo'')) None)"
  by (rule missing_credential_stops_startup)

text \<open>
  C5. When startup leaves the process running, the environment held a credential that is
  not empty, and after any run of calls, each with any upstream, the process has handed
  one request to \<open>axios.get\<close> for each call, and every such request has exactly one
  \<open>function\<close> parameter and exactly one \<open>apikey\<close> parameter, whose value is that
  credential.
\<close>

theorem every_request_has_function_and_credential:
  assumes "status (startup env connect_fault) = Running"
  shows "\<exists>k. env = Some k \<and> k \<noteq> [] \<and>
           length (requests (run_calls ops calls (startup env connect_fault))) = length calls \<and>
           (\<forall>request \<in> set (requests (run_calls ops calls (startup env connect_fault))).
              length (filter (\<lambda>kv. fst kv = ascii ''function'') (query request)) = 1 \<and>
              filter (\<lambda>kv. fst kv = ascii ''apikey'') (query request) = [(ascii ''apikey'', k)])"
proof -
  from startup_Running [OF assms] obtain k where k: "env = Some k" "k \<noteq> []"
    "API_KEY (startup env connect_fault) = Some k" "requests (startup env connect_fault) = []"
    by blast
  have "length (filter (\<lambda>kv. fst kv = ascii ''function'') (query request)) = 1 \<and>
        filter (\<lambda>kv. fst kv = ascii ''apikey'') (query request) = [(ascii ''apikey'', k)]"
    if "request \<in> set (requests (run_calls ops calls (startup env connect_fault)))" for request
  proof -
    from that run_calls_requests [of ops calls "startup env connect_fault"]
    obtain q c where "request = upstream_request q (call_params c)" "API_KEY q = Some k"
      by (auto simp: k(3,4))
    then show ?thesis by (simp add: request_invariant)
  qed
  then have "\<forall>request \<in> set (requests (run_calls ops calls (startup env connect_fault))).
              length (filter (\<lambda>kv. fst kv = ascii ''function'') (query request)) = 1 \<and>
              filter (\<lambda>kv. fst kv = ascii ''apikey'') (query request) = [(ascii ''apikey'', k)]"
    by blast
  moreover have "length (requests (run_calls ops calls (startup env connect_fault))) = length calls"
    by (simp add: run_calls_length k(4))
  ultimately show ?thesis using k(1,2) by blast
qed

text \<open>Witness: two calls after a startup with the credential \<open>demo\<close>.\<close>

theorem every_request_has_function_and_credential_witness:
  "status (startup (Some (ascii ''demo'')) None) = Running \<and>
   length (requests (run_calls jsnumber_ops
      [(mock_upstream (Resolves None), Stock_price (ascii ''AAPL'')),
       (mock_upstream (Rejects (AxiosError (BadStatus 500))),
        Technical_indicator (ascii ''IBM'') (ascii ''RSI'') (ascii ''daily''))]
      (startup (Some (ascii ''demo'')) None))) = 2 \<and>
   list_all
     (\<lambda>request.
        length (filter (\<lambda>kv. fst kv = ascii ''function'') (query request)) = 1 \<and>
        filter (\<lambda>kv. fst kv = ascii ''apikey'') (query request) = [(ascii ''apikey'', ascii ''demo'')])
     (requests (run_calls jsnumber_ops
      [(mock_upstream (Resolves None), Stock_price (ascii ''AAPL'')),
       (mock_upstream (Rejects (AxiosError (BadStatus 500))),
        Technical_indicator (ascii ''IBM'') (ascii ''RSI'') (ascii ''daily''))]
      (startup (Some (ascii ''demo'')) None)))"
proof -
  let ?calls = "[(mock_upstream (Resolves None), Stock_price (ascii ''AAPL'')),
       (mock_upstream (Rejects (AxiosError (BadStatus 500))),
        Technical_indicator (ascii ''IBM'') (ascii ''RSI'') (ascii ''daily''))]
       :: (jsnumber upstream \<times> tool_call) list"
  from every_request_has_function_and_credential [OF startup_demo(1), of jsnumber_ops ?calls]
  obtain k where k: "Some (ascii ''demo'') = Some k"
    and len: "length (requests (run_calls jsnumber_ops ?calls (startup (Some (ascii ''demo'')) None)))
                = length ?calls"
    and inv: "\<forall>request \<in> set (requests (run_calls jsnumber_ops ?calls (startup (Some (ascii ''demo'')) None))).
      length (filter (\<lambda>kv. fst kv = ascii ''function'') (query request)) = 1 \<and>
      filter (\<lambda>kv. fst kv = ascii ''apikey'') (query request) = [(ascii ''apikey'', k)]"
    by blast
  from k have "k = ascii ''demo''" by simp
  with len inv startup_demo(1) show ?thesis by (simp add: list_all_iff)
qed

text \<open>
  C6. On a running server, a call of \<open>get_daily_time_series\<close> whose arguments hold a
  symbol and no \<open>outputsize\<close> passes the schema with \<open>outputsize\<close> set to \<open>compact\<close>, and
  issues one request, whose query is \<open>function=TIME_SERIES_DAILY\<close>, the symbol,
  \<open>outputsize=compact\<close> and the credential.
\<close>

theorem daily_time_series_default_outputsize:
  assumes "status p = Running" and "transport p" and "Get_daily_time_series \<in> set (tools p)"
    and "map_of args (ascii ''symbol'') = Some (JStr symbol)"
    and "map_of args (ascii ''outputsize'') = None"
  shows "validate Get_daily_time_series args = Some (Daily_time_series symbol (ascii ''compact'')) \<and>
         requests (snd (call_tool ops upstream (ascii ''get_daily_time_series'') args p)) =
           requests p @
           [\<lparr>request_method = GET, url = ALPHA_VANTAGE_BASE,
             query = [(ascii ''function'', ascii ''TIME_SERIES_DAILY''), (ascii ''symbol'', symbol),
                      (ascii ''outputsize'', ascii ''compact'')]
                     @ (case API_KEY p of None \<Rightarrow> [] | Some k \<Rightarrow> [(ascii ''apikey'', k)])\<rparr>]"
proof -
  have v: "validate Get_daily_time_series args = Some (Daily_time_series symbol (ascii ''compact''))"
    using assms(4,5) by simp
  have "call_tool ops upstream (tool_name Get_daily_time_series) args p =
          (Handled (fst (handler ops upstream (Daily_time_series symbol (ascii ''compact'')) p)),
           snd (handler ops upstream (Daily_time_series symbol (ascii ''compact'')) p))"
    by (rule call_tool_handled [OF assms(1,2,3) v])
  then show ?thesis
    using v by (simp add: handler_requests upstream_request_def split: option.splits)
qed

text \<open>Witness: the symbol IBM alone, on a server started with the credential \<open>demo\<close>.\<close>

theorem daily_time_series_default_outputsize_witness:
  "requests (snd (call_tool jsnumber_ops (mock_upstream (Resolves None))
       (ascii ''get_daily_time_series'') [(ascii ''symbol'', JStr (ascii ''IBM''))]
       (startup (Some (ascii ''demo'')) None))) =
     [\<lparr>request_method = GET, url = ALPHA_VANTAGE_BASE,
       query = [(ascii ''function'', ascii ''TIME_SERIES_DAILY''), (ascii ''symbol'', ascii ''IBM''),
                (ascii ''outputsize'', ascii ''compact''), (ascii ''apikey'', ascii ''demo'')]\<rparr>]"
proof -
  have "Get_daily_time_series \<in> set (tools (startup (Some (ascii ''demo'')) None))"
    by (simp add: startup_demo)
  moreover have "map_of [(ascii ''symbol'', JStr (ascii ''IBM'') :: jsnumber json)] (ascii ''symbol'')
      = Some (JStr (ascii ''IBM''))"
    by simp
  moreover have "map_of [(ascii ''symbol'', JStr (ascii ''IBM'') :: jsnumber json)] (ascii ''outputsize'')
      = None"
    by simp
  ultimately show ?thesis
    using daily_time_series_default_outputsize [OF startup_demo(1,2), of
        "[(ascii ''symbol'', JStr (ascii ''IBM''))]" "ascii ''IBM''" jsnumber_ops
        "mock_upstream (Resolves None)"]
    by (simp add: startup_demo)
qed

text \<open>
  C7. On a running server, for every call of \<open>get_technical_indicator\<close> whose arguments
  pass the schema (a string as symbol, any string whatever as indicator, and an interval
  that is absent or one of the eight enumerated values), the call is accepted and hands
  one request to \<open>axios.get\<close>, whose \<open>function\<close> parameter is the indicator string
  itself, next to the symbol, the interval that the schema gave (the one of the call, or
  \<open>daily\<close> when the call has none) and the credential.
\<close>

theorem technical_indicator_passes_indicator_through:
  assumes "status p = Running" and "transport p" and "Get_technical_indicator \<in> set (tools p)"
    and "map_of args (ascii ''symbol'') = Some (JStr symbol)"
    and "map_of args (ascii ''indicator'') = Some (JStr indicator)"
    and "zod_parse
           (ZEnumDefault
              [ascii ''1min'', ascii ''5min'', ascii ''15min'', ascii ''30min'', ascii ''60min'',
               ascii ''daily'', ascii ''weekly'', ascii ''monthly''] (ascii ''daily''))
           (map_of args (ascii ''interval'')) = Some interval"
  shows "validate Get_technical_indicator args =
           Some (Technical_indicator symbol indicator interval) \<and>
         requests (snd (call_tool ops upstream (ascii ''get_technical_indicator'') args p)) =
           requests p @
           [\<lparr>request_method = GET, url = ALPHA_VANTAGE_BASE,
             query = [(ascii ''function'', indicator), (ascii ''symbol'', symbol),
                      (ascii ''interval'', interval)]
                     @ (case API_KEY p of None \<Rightarrow> [] | Some k \<Rightarrow> [(ascii ''apikey'', k)])\<rparr>]"
proof -
  have v: "validate Get_technical_indicator args =
      Some (Technical_indicator symbol indicator interval)"
    using assms(4,5,6) by simp
  have "call_tool ops upstream (tool_name Get_technical_indicator) args p =
          (Handled (fst (handler ops upstream (Technical_indicator symbol indicator interval) p)),
           snd (handler ops upstream (Technical_indicator symbol indicator interval) p))"
    by (rule call_tool_handled [OF assms(1,2,3) v])
  then show ?thesis
    using v by (simp add: handler_requests upstream_request_def split: option.splits)
qed

text \<open>Witness: the indicator RSI for IBM, with the interval \<open>weekly\<close>.\<close>

theorem technical_indicator_passes_indicator_through_witness:
  "requests (snd (call_tool jsnumber_ops (mock_upstream (Resolves None))
       (ascii ''get_technical_indicator'')
       [(ascii ''symbol'', JStr (ascii ''IBM'')), (ascii ''indicator'', JStr (ascii ''RSI'')),
        (ascii ''interval'', JStr (ascii ''weekly''))]
       (startup (Some (ascii ''demo'')) None))) =
     [\<lparr>request_method = GET, url = ALPHA_VANTAGE_BASE,
       query = [(ascii ''function'', ascii ''RSI''), (ascii ''symbol'', ascii ''IBM''),
                (ascii ''interval'', ascii ''weekly''), (ascii ''apikey'', ascii ''demo'')]\<rparr>]"
proof -
  let ?args = "[(ascii ''symbol'', JStr (ascii ''IBM'')), (ascii ''indicator'', JStr (ascii ''RSI'')),
                (ascii ''interval'', JStr (ascii ''weekly''))]
                 :: (jsstring \<times> jsnumber json) list"
  have "Get_technical_indicator \<in> set (tools (startup (Some (ascii ''demo'')) None))"
    by (simp add: startup_demo)
  moreover have "map_of ?args (ascii ''symbol'') = Some (JStr (ascii ''IBM''))"
    by simp
  moreover have "map_of ?args (ascii ''indicator'') = Some (JStr (ascii ''RSI''))"
    by simp
  moreover have "zod_parse
           (ZEnumDefault
              [ascii ''1min'', ascii ''5min'', ascii ''15min'', ascii ''30min'', ascii ''60min'',
               ascii ''daily'', ascii ''weekly'', ascii ''monthly''] (ascii ''daily''))
           (map_of ?args (ascii ''interval'')) = Some (ascii ''weekly'')"
    by simp
  ultimately show ?thesis
    using technical_indicator_passes_indicator_through [OF startup_demo(1,2), of
        ?args "ascii ''IBM''" "ascii ''RSI''" "ascii ''weekly''" jsnumber_ops
        "mock_upstream (Resolves None)"]
    by (simp add: startup_demo)
qed

text \<open>
  C8. On a running server with credential \<open>k\<close>, \<open>get_forex_rate\<close> called with
  \<open>from_currency = "USD"\<close> and \<open>to_currency = "EUR"\<close> issues exactly one request: a GET to
  the base URL whose query is \<open>function=CURRENCY_EXCHANGE_RATE\<close>, \<open>from_currency=USD\<close>,
  \<open>to_currency=EUR\<close> and \<open>apikey=k\<close>, and nothing else.
\<close>

theorem forex_rate_request:
  assumes "status p = Running" and "transport p" and "Get_forex_rate \<in> set (tools p)"
    and "API_KEY p = Some k"
  shows "requests (snd (call_tool ops upstream (ascii ''get_forex_rate'')
            [(ascii ''from_currency'', JStr (ascii ''USD'')),
             (ascii ''to_currency'', JStr (ascii ''EUR''))] p)) =
           requests p @
           [\<lparr>request_method = GET, url = ALPHA_VANTAGE_BASE,
             query = [(ascii ''function'', ascii ''CURRENCY_EXCHANGE_RATE''),
                      (ascii ''from_currency'', ascii ''USD''), (ascii ''to_currency'', ascii ''EUR''),
                      (ascii ''apikey'', k)]\<rparr>]"
proof -
  let ?args = "[(ascii ''from_currency'', JStr (ascii ''USD'')),
                (ascii ''to_currency'', JStr (ascii ''EUR''))]"
  have v: "validate Get_forex_rate ?args = Some (Forex_rate (ascii ''USD'') (ascii ''EUR''))"
    by simp
  have "call_tool ops upstream (tool_name Get_forex_rate) ?args p =
          (Handled (fst (handler ops upstream (Forex_rate (ascii ''USD'') (ascii ''EUR'')) p)),
           snd (handler ops upstream (Forex_rate (ascii ''USD'') (ascii ''EUR'')) p))"
    by (rule call_tool_handled [OF assms(1,2,3) v])
  then show ?thesis
    using assms(4) by (simp add: handler_requests upstream_request_def)
qed

text \<open>Witness: the server started with the credential \<open>demo\<close>.\<close>

theorem forex_rate_request_witness:
  "requests (snd (call_tool jsnumber_ops (mock_upstream (Resolves None)) (ascii ''get_forex_rate'')
       [(ascii ''from_currency'', JStr (ascii ''USD'')), (ascii ''to_currency'', JStr (ascii ''EUR''))]
       (startup (Some (ascii ''demo'')) None))) =
     [\<lparr>request_method = GET, url = ALPHA_VANTAGE_BASE,
       query = [(ascii ''function'', ascii ''CURRENCY_EXCHANGE_RATE''),
                (ascii ''from_currency'', ascii ''USD''), (ascii ''to_currency'', ascii ''EUR''),
                (ascii ''apikey'', ascii ''demo'')]\<rparr>]"
proof -
  have "Get_forex_rate \<in> set (tools (startup (Some (ascii ''demo'')) None))"
    by (simp add: startup_demo)
  then show ?thesis
    using forex_rate_request [OF startup_demo(1,2) _ startup_demo(3), of jsnumber_ops
        "mock_upstream (Resolves None)"]
    by (simp add: startup_demo)
qed

text \<open>
  C9. Two calls with the same arguments whose requests fail, for whatever causes, on
  whatever upstreams and in whatever states of the process, return the same result; the
  cause of each failure is in the line that the call appends to the console.
\<close>

theorem failure_cause_only_in_log:
  assumes "response_data_or_throw ops
             (upstream1 (last (requests (snd (handler ops upstream1 c p1))))) = Throw error1"
    and "response_data_or_throw ops
             (upstream2 (last (requests (snd (handler ops upstream2 c p2))))) = Throw error2"
  shows "fst (handler ops upstream1 c p1) = fst (handler ops upstream2 c p2) \<and>
         console (snd (handler ops upstream1 c p1)) =
           console p1 @ [ConsoleError request_failed_label error1] \<and>
         console (snd (handler ops upstream2 c p2)) =
           console p2 @ [ConsoleError request_failed_label error2]"
proof -
  from assms(1)
  have 1: "response_data_or_throw ops (upstream1 (upstream_request p1 (call_params c))) = Throw error1"
    by (simp only: handler_last_request)
  from assms(2)
  have 2: "response_data_or_throw ops (upstream2 (upstream_request p2 (call_params c))) = Throw error2"
    by (simp only: handler_last_request)
  from 1 2 show ?thesis by (simp add: handler_Throw)
qed

text \<open>Witness: a status 503 and a response without data, for the same forex call.\<close>

theorem failure_cause_only_in_log_witness:
  "fst (handler jsnumber_ops (mock_upstream (Rejects (AxiosError (BadStatus 503))))
          (Forex_rate (ascii ''USD'') (ascii ''EUR'')) (startup (Some (ascii ''demo'')) None))
   = fst (handler jsnumber_ops (mock_upstream (Resolves None))
          (Forex_rate (ascii ''USD'') (ascii ''EUR'')) (startup (Some (ascii ''demo'')) None)) \<and>
   console (snd (handler jsnumber_ops (mock_upstream (Rejects (AxiosError (BadStatus 503))))
          (Forex_rate (ascii ''USD'') (ascii ''EUR'')) (startup (Some (ascii ''demo'')) None)))
   = console (startup (Some (ascii ''demo'')) None) @
       [ConsoleError request_failed_label (AxiosError (BadStatus 503))] \<and>
   console (snd (handler jsnumber_ops (mock_upstream (Resolves None))
          (Forex_rate (ascii ''USD'') (ascii ''EUR'')) (startup (Some (ascii ''demo'')) None)))
   = console (startup (Some (ascii ''demo'')) None) @
       [ConsoleError request_failed_label (Error invalid_response_message)]"
  using failure_cause_only_in_log
    [of jsnumber_ops "mock_upstream (Rejects (AxiosError (BadStatus 503)))"
      "Forex_rate (ascii ''USD'') (ascii ''EUR'')" "startup (Some (ascii ''demo'')) None"
      "AxiosError (BadStatus 503)" "mock_upstream (Resolves None)"
      "startup (Some (ascii ''demo'')) None" "Error invalid_response_message"]
  by (simp add: mock_upstream_def response_data_or_throw_def)

text \<open>
  C10. When the response has data and the data is falsy, the gateway logs \<open>Error\<close> with
  the message of line 295 and returns \<open>null\<close>, and the call returns the failure text of
  its tool. The falsy payload values are \<open>null\<close>, \<open>false\<close>, the empty string and the
  numbers that are falsy (zero).
\<close>

theorem falsy_payload_is_a_failure:
  "(upstream (upstream_request p params) = Resolves (Some data) \<and> falsy ops data \<longrightarrow>
      makeAlphaVantageRequest ops upstream params p =
        (Return JNull,
         p\<lparr>requests := requests p @ [upstream_request p params],
           console := console p @
             [ConsoleError request_failed_label (Error invalid_response_message)]\<rparr>)) \<and>
   (upstream (last (requests (snd (handler ops upstream c p)))) = Resolves (Some data) \<and>
    falsy ops data \<longrightarrow>
      fst (handler ops upstream c p) =
        Return \<lparr>content = [TextBlock (failure_text (tool_of c))]\<rparr>) \<and>
   falsy ops JNull \<and> falsy ops (JBool False) \<and> falsy ops (JStr []) \<and>
   (falsy ops (JNum n) \<longleftrightarrow> num_is_falsy ops n)"
proof (intro conjI impI)
  assume "upstream (upstream_request p params) = Resolves (Some data) \<and> falsy ops data"
  then have "response_data_or_throw ops (upstream (upstream_request p params)) =
      Throw (Error invalid_response_message)"
    by (simp add: response_data_or_throw_def)
  then show "makeAlphaVantageRequest ops upstream params p =
        (Return JNull,
         p\<lparr>requests := requests p @ [upstream_request p params],
           console := console p @
             [ConsoleError request_failed_label (Error invalid_response_message)]\<rparr>)"
    by (rule gateway_Throw)
next
  assume "upstream (last (requests (snd (handler ops upstream c p)))) = Resolves (Some data) \<and>
    falsy ops data"
  then have "response_data_or_throw ops (upstream (upstream_request p (call_params c))) =
      Throw (Error invalid_response_message)"
    by (simp add: response_data_or_throw_def handler_last_request)
  then show "fst (handler ops upstream c p) =
      Return \<lparr>content = [TextBlock (failure_text (tool_of c))]\<rparr>"
    by (simp add: handler_Throw)
qed simp_all

text \<open>Witness: the upstream answers \<open>get_crypto_price\<close> with the JSON text \<open>0\<close>.\<close>

theorem falsy_payload_is_a_failure_witness:
  "fst (makeAlphaVantageRequest jsnumber_ops (mock_upstream (Resolves (Some (JNum (Integral 0)))))
          (call_params (Crypto_price (ascii ''BTC'') (ascii ''USD'')))
          (startup (Some (ascii ''demo'')) None)) = Return JNull \<and>
   fst (handler jsnumber_ops (mock_upstream (Resolves (Some (JNum (Integral 0)))))
          (Crypto_price (ascii ''BTC'') (ascii ''USD'')) (startup (Some (ascii ''demo'')) None))
     = Return \<lparr>content = [TextBlock (failure_text Get_crypto_price)]\<rparr>"
  using falsy_payload_is_a_failure
    [of "mock_upstream (Resolves (Some (JNum (Integral 0))))" "startup (Some (ascii ''demo'')) None"
      "call_params (Crypto_price (ascii ''BTC'') (ascii ''USD''))" "JNum (Integral 0)" jsnumber_ops
      "Crypto_price (ascii ''BTC'') (ascii ''USD'')"]
  by (simp add: mock_upstream_def jsnumber_ops_def)

section \<open>The claim about the text of a successful call\<close>

subsection \<open>An example\<close>

text \<open>
  The text that JSON.stringify gives for an example payload, with its two-space
  indentation (0x0A is the line feed, 0x22 the double quote).
\<close>

lemma JSON_stringify_example:
  "JSON_stringify jsnumber_ops
     (JObj [(ascii ''symbol'', JStr (ascii ''IBM'')), (ascii ''volume'', JNum (Integral 42)),
            (ascii ''flags'', JArr [JBool True, JNull])]) =
   ascii ''{'' @ [0x0A] @
   ascii ''  '' @ [0x22] @ ascii ''symbol'' @ [0x22] @ ascii '': '' @ [0x22] @ ascii ''IBM'' @ [0x22]
     @ ascii '','' @ [0x0A] @
   ascii ''  '' @ [0x22] @ ascii ''volume'' @ [0x22] @ ascii '': 42,'' @ [0x0A] @
   ascii ''  '' @ [0x22] @ ascii ''flags'' @ [0x22] @ ascii '': ['' @ [0x0A] @
   ascii ''    true,'' @ [0x0A] @
   ascii ''    null'' @ [0x0A] @
   ascii ''  ]'' @ [0x0A] @
   ascii ''}''"
  by (simp add: JSON_stringify_def jsnumber_ops_def QuoteJSONString_def gap_def ascii_def
        decimal.simps is_leading_surrogate_def is_trailing_surrogate_def)

subsection \<open>The numbers of the instance read back\<close>

lemma unat_decimal_digit: "d < 10 \<Longrightarrow> unat (of_nat (48 + d) :: 16 word) = 48 + d"
  by (simp add: unat_of_nat del: of_nat_add)

lemma decimal_not_Nil: "decimal n \<noteq> []"
  by (subst decimal.simps) simp

lemma decimal_digits: "list_all (\<lambda>c. 0x30 \<le> c \<and> c \<le> 0x39) (decimal n)"
proof (induction n rule: decimal.induct)
  case (1 n)
  show ?case
  proof (cases "n < 10")
    case True
    then show ?thesis
      by (subst decimal.simps) (simp add: word_le_nat_alt unat_decimal_digit del: of_nat_add)
  next
    case False
    with 1 have "list_all (\<lambda>c. 0x30 \<le> c \<and> c \<le> 0x39) (decimal (n div 10))"
      by simp
    with False show ?thesis
      by (subst decimal.simps) (simp add: word_le_nat_alt unat_decimal_digit del: of_nat_add)
  qed
qed

lemma digits_value_append:
  "digits_value acc (xs @ ys) =
     (case digits_value acc xs of None \<Rightarrow> None | Some a \<Rightarrow> digits_value a ys)"
  by (induction xs arbitrary: acc) simp_all

lemma digits_value_digit:
  "d < 10 \<Longrightarrow> digits_value acc [of_nat (48 + d)] = Some (10 * acc + d)"
  by (simp add: word_le_nat_alt unat_decimal_digit del: of_nat_add)

lemma digits_value_decimal: "digits_value 0 (decimal n) = Some n"
proof (induction n rule: decimal.induct)
  case (1 n)
  show ?case
  proof (cases "n < 10")
    case True
    then have "decimal n = [of_nat (48 + n)]"
      by (subst decimal.simps) simp
    with True show ?thesis
      by (simp only: digits_value_digit) simp
  next
    case False
    with 1 have IH: "digits_value 0 (decimal (n div 10)) = Some (n div 10)"
      by simp
    from False have "decimal n = decimal (n div 10) @ [of_nat (48 + n mod 10)]"
      by (subst decimal.simps) simp
    moreover have "digits_value (n div 10) [of_nat (48 + n mod 10)] = Some (10 * (n div 10) + n mod 10)"
      by (rule digits_value_digit) simp
    ultimately show ?thesis
      using IH by (simp only: digits_value_append option.case) simp
  qed
qed

lemma decimal_digit_not_zero:
  assumes "0 < d" and "d < 10"
  shows "(of_nat (48 + d) :: 16 word) \<noteq> 0x30"
proof
  assume "(of_nat (48 + d) :: 16 word) = 0x30"
  then have "unat (of_nat (48 + d) :: 16 word) = unat (0x30 :: 16 word)"
    by (simp only:)
  with assms show False
    by (simp add: unat_decimal_digit del: of_nat_add)
qed

lemma hd_decimal: "0 < n \<Longrightarrow> hd (decimal n) \<noteq> 0x30"
proof (induction n rule: decimal.induct)
  case (1 n)
  show ?case
  proof (cases "n < 10")
    case True
    then have "decimal n = [of_nat (48 + n)]"
      by (subst decimal.simps) simp
    with True "1.prems" show ?thesis
      by (simp only: list.sel decimal_digit_not_zero not_False_eq_True)
  next
    case False
    then have "0 < n div 10" by simp
    with 1 False have "hd (decimal (n div 10)) \<noteq> 0x30" by simp
    moreover from False have "decimal n = decimal (n div 10) @ [of_nat (48 + n mod 10)]"
      by (subst decimal.simps) simp
    ultimately show ?thesis
      by (simp add: hd_append decimal_not_Nil)
  qed
qed

lemma natural_of_token_decimal: "natural_of_token (decimal n) = Some n"
proof -
  obtain c cs where eq: "decimal n = c # cs"
    using decimal_not_Nil [of n] by (cases "decimal n") auto
  have "\<not> (c = 0x30 \<and> cs \<noteq> [])"
  proof (cases "n = 0")
    case True
    have "decimal 0 = [0x30]" by (subst decimal.simps) simp
    with eq True show ?thesis by simp
  next
    case False
    then have "hd (decimal n) \<noteq> 0x30" by (intro hd_decimal) simp
    with eq show ?thesis by simp
  qed
  moreover have "digits_value 0 (c # cs) = Some n"
    using digits_value_decimal [of n] by (simp only: eq)
  ultimately have "(case c # cs of [] \<Rightarrow> None
      | c # cs \<Rightarrow> if c = 0x30 \<and> cs \<noteq> [] then None else digits_value 0 (c # cs)) = Some n"
    by (simp only: list.case if_False)
  then show ?thesis
    by (simp only: natural_of_token_def eq list.case)
qed

lemma decimal_number_units: "list_all is_number_unit (decimal n)"
  using decimal_digits [of n] by (simp add: list_all_iff is_number_unit_def)

lemma hd_decimal_not_minus: "decimal n = c # cs \<Longrightarrow> c \<noteq> 0x2D"
  using decimal_digits [of n] by auto

lemma unat_53: "unat (m :: 53 word) < 2 ^ 53"
  using unsigned_less [of m, where 'a = nat] by simp

lemma Integral_reads_back: "number_reads_back jsnumber_ops (Integral m)"
proof -
  obtain c cs where eq: "decimal (unat m) = c # cs"
    using decimal_not_Nil [of "unat m"] by (cases "decimal (unat m)") auto
  have "natural_of_token (c # cs) = Some (unat m)"
    using natural_of_token_decimal [of "unat m"] by (simp only: eq)
  then have "jsnumber_of_token (c # cs) = Some (Integral m)"
    using hd_decimal_not_minus [OF eq] unat_53 [of m] by (simp add: jsnumber_of_token_def)
  then show ?thesis
    using decimal_number_units [of "unat m"]
    by (simp add: number_reads_back_def jsnumber_ops_def eq)
qed

lemma Negative_reads_back: "m \<noteq> 0 \<Longrightarrow> number_reads_back jsnumber_ops (Negative m)"
  using decimal_number_units [of "unat m"] unat_53 [of m]
  by (simp add: number_reads_back_def jsnumber_ops_def jsnumber_of_token_def
        natural_of_token_decimal is_number_unit_def)

lemma jsnumber_reads_back:
  "num_is_finite jsnumber_ops n \<and> n \<noteq> num_minus_zero jsnumber_ops \<longrightarrow>
     number_reads_back jsnumber_ops n"
proof (cases n)
  case (Integral m)
  then show ?thesis by (simp add: Integral_reads_back)
next
  case (Negative m)
  show ?thesis
  proof (cases "m = 0")
    case True
    with Negative show ?thesis by (simp add: jsnumber_ops_def)
  next
    case False
    with Negative show ?thesis by (simp add: Negative_reads_back)
  qed
qed (simp_all add: jsnumber_ops_def)

text \<open>
  Negative zero is finite and prints as \<open>0\<close>, which reads as zero: an array that holds
  negative zero comes back holding zero.
\<close>

lemma minus_zero_comes_back_as_zero:
  "JSON_parse jsnumber_ops (JSON_stringify jsnumber_ops (JArr [JNum (Negative 0)])) =
     Some (JArr [JNum (Integral 0)])"
proof -
  have "decimal 0 = [0x30]" by (subst decimal.simps) simp
  then have "JSON_stringify jsnumber_ops (JArr [JNum (Negative 0)]) =
      JSON_stringify jsnumber_ops (JArr [JNum (Integral 0)])"
    by (simp add: JSON_stringify_def jsnumber_ops_def ascii_def)
  moreover have "JSON_parse jsnumber_ops (JSON_stringify jsnumber_ops (JArr [JNum (Integral 0)])) =
      Some (JArr [JNum (Integral 0)])"
    by (rule JSON_parse_stringify) (simp_all add: Integral_reads_back)
  ultimately show ?thesis by (simp only:)
qed

subsection \<open>The claim\<close>

lemma finite_numbers_read_back:
  assumes "\<And>n. num_is_finite ops n \<and> n \<noteq> num_minus_zero ops \<longrightarrow> number_reads_back ops n"
    and "numbers_finite_not_minus_zero ops v"
  shows "numbers_read_back ops v"
  using assms(2)
proof (induction v)
  case (JNum n)
  then show ?case using assms(1) [of n] by simp
next
  case (JArr xs)
  then show ?case by (simp add: list_all_iff)
next
  case (JObj kvs)
  have "numbers_read_back ops (snd kv)" if "kv \<in> set kvs" for kv
  proof (rule JObj.IH [OF that])
    show "snd kv \<in> Basic_BNFs.snds kv" by (rule snds.intros)
    show "numbers_finite_not_minus_zero ops (snd kv)"
      using JObj.prems that by (simp add: list_all_iff)
  qed
  then show ?case by (simp add: list_all_iff)
qed simp_all

text \<open>
  In the instance, every payload whose numbers are finite and not negative zero, with each
  key once in every object, comes back from its text.
\<close>

lemma jsnumber_payload_comes_back:
  assumes "numbers_finite_not_minus_zero jsnumber_ops v" and "distinct_keys v"
  shows "JSON_parse jsnumber_ops (JSON_stringify jsnumber_ops v) = Some v"
proof (rule JSON_parse_stringify)
  show "numbers_read_back jsnumber_ops v"
    by (rule finite_numbers_read_back [OF jsnumber_reads_back assms(1)])
  show "distinct_keys v" by (rule assms(2))
qed




end
